theory Spec2Isabelle
  imports Complex_Main
begin

section \<open>JavaScript strings and regular expressions\<close>

text \<open>
  A JavaScript string is modelled as a HOL string: a list of code units below 256 (the
  Latin-1 range). \<^verbatim>\<open>undefined\<close> and \<^verbatim>\<open>null\<close> are \<open>None\<close> of \<open>string option\<close>.
  \<^verbatim>\<open>toLowerCase\<close> maps A-Z and the upper-case letters of the range 0xC0-0xDE (0xD7, the
  multiplication sign, excepted) to the code unit 32 above; white space (\<^verbatim>\<open>\s\<close>, \<^verbatim>\<open>trim\<close>)
  is the code units 9 to 13, 32 and 160.
\<close>

datatype error = Error string

definition code_unit :: "char \<Rightarrow> nat" where
  "code_unit c = of_char c"

definition lower_char :: "char \<Rightarrow> char" where
  "lower_char c =
     (let n = code_unit c in
      if (65 \<le> n \<and> n \<le> 90) \<or> (192 \<le> n \<and> n \<le> 222 \<and> n \<noteq> 215)
      then char_of (n + 32) else c)"

definition toLowerCase :: "string \<Rightarrow> string" where
  "toLowerCase s = map lower_char s"

definition is_space :: "char \<Rightarrow> bool" where
  "is_space c = (let n = code_unit c in (9 \<le> n \<and> n \<le> 13) \<or> n = 32 \<or> n = 160)"

definition is_digit :: "char \<Rightarrow> bool" where
  "is_digit c = (let n = code_unit c in 48 \<le> n \<and> n \<le> 57)"

definition is_word_char :: "char \<Rightarrow> bool" where
  "is_word_char c =
     (let n = code_unit c in
      (48 \<le> n \<and> n \<le> 57) \<or> (65 \<le> n \<and> n \<le> 90) \<or> (97 \<le> n \<and> n \<le> 122) \<or> n = 95)"

definition trim :: "string \<Rightarrow> string" where
  "trim s = rev (dropWhile is_space (rev (dropWhile is_space s)))"

fun startsWith :: "string \<Rightarrow> string \<Rightarrow> bool" where
  "startsWith s [] = True"
| "startsWith [] (p # ps) = False"
| "startsWith (c # cs) (p # ps) = (c = p \<and> startsWith cs ps)"

fun includes_str :: "string \<Rightarrow> string \<Rightarrow> bool" where
  "includes_str [] sub = (sub = [])"
| "includes_str (c # cs) sub = (startsWith (c # cs) sub \<or> includes_str cs sub)"

text \<open>\<^verbatim>\<open>a || b\<close> on a possibly missing string: the empty string is falsy.\<close>

definition or_else :: "string option \<Rightarrow> string \<Rightarrow> string" where
  "or_else a d = (case a of None \<Rightarrow> d | Some s \<Rightarrow> if s = [] then d else s)"

text \<open>\<^verbatim>\<open>Array.prototype.join\<close>: a missing element is joined as the empty string.\<close>

fun join :: "string \<Rightarrow> string list \<Rightarrow> string" where
  "join sep [] = []"
| "join sep [x] = x"
| "join sep (x # y # xs) = x @ sep @ join sep (y # xs)"

definition join_opt :: "string \<Rightarrow> string option list \<Rightarrow> string" where
  "join_opt sep xs = join sep (map (\<lambda>x. case x of None \<Rightarrow> [] | Some s \<Rightarrow> s) xs)"

text \<open>
  The regular expressions of the source use literals, character classes, alternation,
  an optional item and the anchors \<^verbatim>\<open>^\<close> and \<^verbatim>\<open>$\<close> (no multi-line flag). \<open>rx_ends r s i\<close>
  lists the positions at which a match of \<open>r\<close> that starts at position \<open>i\<close> of \<open>s\<close> can
  end; \<^verbatim>\<open>RegExp.prototype.test\<close> succeeds when some start position has a match.
\<close>

datatype rx =
    Lit string
  | Cls "char \<Rightarrow> bool"
  | Bol
  | Eol
  | Seq rx rx
  | Alt rx rx
  | Opt rx

fun rx_ends :: "rx \<Rightarrow> string \<Rightarrow> nat \<Rightarrow> nat list" where
  "rx_ends (Lit l) s i = (if startsWith (drop i s) l then [i + length l] else [])"
| "rx_ends (Cls P) s i = (if i < length s \<and> P (s ! i) then [Suc i] else [])"
| "rx_ends Bol s i = (if i = 0 then [i] else [])"
| "rx_ends Eol s i = (if i = length s then [i] else [])"
| "rx_ends (Seq a b) s i = concat (map (rx_ends b s) (rx_ends a s i))"
| "rx_ends (Alt a b) s i = rx_ends a s i @ rx_ends b s i"
| "rx_ends (Opt a) s i = rx_ends a s i @ [i]"

definition rx_test :: "rx \<Rightarrow> string \<Rightarrow> bool" where
  "rx_test r s = list_ex (\<lambda>i. rx_ends r s i \<noteq> []) [0 ..< Suc (length s)]"

fun alts :: "rx list \<Rightarrow> rx" where
  "alts [] = Lit []"
| "alts [r] = r"
| "alts (r # rs) = Alt r (alts rs)"

text \<open>The classes \<^verbatim>\<open>[_\s-]\<close>, \<^verbatim>\<open>[_\s]\<close>, \<^verbatim>\<open>\W\<close> and the dot.\<close>

definition sep_dash :: "char \<Rightarrow> bool" where
  "sep_dash c = (c = CHR ''_'' \<or> is_space c \<or> c = CHR ''-'')"

definition sep_plain :: "char \<Rightarrow> bool" where
  "sep_plain c = (c = CHR ''_'' \<or> is_space c)"

definition non_word :: "char \<Rightarrow> bool" where
  "non_word c = (\<not> is_word_char c)"

definition any_char :: "char \<Rightarrow> bool" where
  "any_char c = (code_unit c \<noteq> 10 \<and> code_unit c \<noteq> 13)"

text \<open>\<^verbatim>\<open>a[cls]?b\<close> and \<^verbatim>\<open>a[cls]b\<close>\<close>

definition opt_sep :: "(char \<Rightarrow> bool) \<Rightarrow> string \<Rightarrow> string \<Rightarrow> rx" where
  "opt_sep cls a b = Seq (Lit a) (Seq (Opt (Cls cls)) (Lit b))"

definition with_sep :: "(char \<Rightarrow> bool) \<Rightarrow> string \<Rightarrow> string \<Rightarrow> rx" where
  "with_sep cls a b = Seq (Lit a) (Seq (Cls cls) (Lit b))"


section \<open>Rate limiter (src/utils/rate-limiter.js)\<close>

text \<open>
  The class \<^verbatim>\<open>RateLimiter\<close> keeps the list of admitted request times (milliseconds,
  the values of \<^verbatim>\<open>Date.now()\<close>) and the window length. Each method reads the clock
  once; the model takes that reading as the argument \<open>now\<close> and returns the updated
  object next to the method's result.
\<close>

record RateLimiter =
  requests :: "int list"
  windowMs :: int

definition new_RateLimiter :: RateLimiter where
  "new_RateLimiter = \<lparr>requests = [], windowMs = 60000\<rparr>"

definition maxRequests :: nat where
  "maxRequests = 10"

definition checkLimit :: "int \<Rightarrow> RateLimiter \<Rightarrow> bool \<times> RateLimiter" where
  "checkLimit now rl =
     (let reqs = filter (\<lambda>time. now - time < windowMs rl) (requests rl) in
      if length reqs \<ge> maxRequests then (False, rl\<lparr>requests := reqs\<rparr>)
      else (True, rl\<lparr>requests := reqs @ [now]\<rparr>))"

definition getRemainingRequests :: "int \<Rightarrow> RateLimiter \<Rightarrow> int \<times> RateLimiter" where
  "getRemainingRequests now rl =
     (let reqs = filter (\<lambda>time. now - time < windowMs rl) (requests rl) in
      (max 0 (int maxRequests - int (length reqs)), rl\<lparr>requests := reqs\<rparr>))"

definition getTimeUntilReset :: "int \<Rightarrow> RateLimiter \<Rightarrow> int" where
  "getTimeUntilReset now rl =
     (case requests rl of
        [] \<Rightarrow> 0
      | r # rs \<Rightarrow> (let oldestRequest = fold min rs r;
                      resetTime = oldestRequest + windowMs rl
                  in max 0 (resetTime - now)))"

definition reset :: "RateLimiter \<Rightarrow> RateLimiter" where
  "reset rl = rl\<lparr>requests := []\<rparr>"

text \<open>
  A sequence of admission checks at the clock readings \<open>ts\<close>. The state carries the
  limiter, the answers given so far and the readings that were admitted.
\<close>

definition check_step :: "int \<Rightarrow> RateLimiter \<times> bool list \<times> int list \<Rightarrow> RateLimiter \<times> bool list \<times> int list" where
  "check_step t s =
     (case s of (rl, answers, adm) \<Rightarrow>
        (case checkLimit t rl of (ok, rl') \<Rightarrow>
           (rl', answers @ [ok], if ok then adm @ [t] else adm)))"

definition run_checks :: "int list \<Rightarrow> RateLimiter \<times> bool list \<times> int list" where
  "run_checks ts = fold check_step ts (new_RateLimiter, [], [])"

definition limiter_after :: "int list \<Rightarrow> RateLimiter" where
  "limiter_after ts = fst (run_checks ts)"

definition answers :: "int list \<Rightarrow> bool list" where
  "answers ts = fst (snd (run_checks ts))"

definition admitted :: "int list \<Rightarrow> int list" where
  "admitted ts = snd (snd (run_checks ts))"

section \<open>Context collector (src/services/context-collector.js)\<close>

text \<open>
  The host calls (\<^verbatim>\<open>chrome.tabs.query\<close>, \<^verbatim>\<open>chrome.history.search\<close>) are arguments of
  the model: each either delivers its list or fails with an error, which the method's
  \<^verbatim>\<open>try/catch\<close> turns into the empty list. \<^verbatim>\<open>Date.now()\<close> is the argument \<open>now\<close>.
\<close>

record tab =
  tab_id :: "int option"
  tab_url :: "string option"
  tab_title :: "string option"

record tab_info =
  ti_title :: string
  ti_url :: string

record history_item =
  hi_url :: "string option"
  hi_title :: "string option"
  hi_visitCount :: "int option"
  hi_lastVisitTime :: "int option"

record history_query =
  q_text :: string
  q_startTime :: int
  q_maxResults :: nat

record history_entry =
  he_title :: string
  he_url :: string
  he_visitCount :: int
  he_lastVisitTime :: int

record top_entry =
  te_title :: string
  te_url :: string
  te_visitCount :: int

definition lower_or_empty :: "string option \<Rightarrow> string" where
  "lower_or_empty x = (case x of None \<Rightarrow> [] | Some s \<Rightarrow> toLowerCase s)"

definition int_or_zero :: "int option \<Rightarrow> int" where
  "int_or_zero x = (case x of None \<Rightarrow> 0 | Some n \<Rightarrow> n)"

definition sensitiveDomains :: "string list" where
  "sensitiveDomains =
     [''bank'', ''login'', ''signin'', ''auth'', ''payment'',
      ''checkout'', ''account'', ''admin'', ''dashboard'']"

definition is_current_tab :: "tab option \<Rightarrow> tab \<Rightarrow> bool" where
  "is_current_tab currentTab t =
     (tab_id t = (case currentTab of None \<Rightarrow> None | Some c \<Rightarrow> tab_id c))"

definition isFiltered :: "tab \<Rightarrow> bool" where
  "isFiltered t =
     (let url = lower_or_empty (tab_url t) in
      list_ex (\<lambda>domain. includes_str url domain) sensitiveDomains)"

definition other_tabs :: "tab list \<Rightarrow> tab option \<Rightarrow> tab list" where
  "other_tabs tabs currentTab =
     take 5 (filter (\<lambda>t. \<not> is_current_tab currentTab t \<and> \<not> isFiltered t) tabs)"

definition tab_entry :: "tab \<Rightarrow> tab_info" where
  "tab_entry t = \<lparr>ti_title = or_else (tab_title t) [], ti_url = or_else (tab_url t) []\<rparr>"

definition getActiveTabsContext :: "error + tab list \<Rightarrow> error + tab list \<Rightarrow> tab_info list" where
  "getActiveTabsContext window_tabs active_tabs =
     (case window_tabs of
        Inl e \<Rightarrow> []
      | Inr tabs \<Rightarrow>
          (case active_tabs of
             Inl e \<Rightarrow> []
           | Inr act \<Rightarrow>
               (let currentTab = (case act of [] \<Rightarrow> None | t # _ \<Rightarrow> Some t)
                in map tab_entry (other_tabs tabs currentTab))))"

definition useful_item :: "history_item \<Rightarrow> bool" where
  "useful_item item =
     (let url = lower_or_empty (hi_url item);
          title = lower_or_empty (hi_title item)
      in \<not> includes_str url ''chrome://''
         \<and> \<not> includes_str url ''chrome-extension://''
         \<and> title \<noteq> []
         \<and> title \<noteq> ''new tab''
         \<and> length title > 3)"

definition history_entry_of :: "history_item \<Rightarrow> history_entry" where
  "history_entry_of item =
     \<lparr>he_title = or_else (hi_title item) [],
      he_url = or_else (hi_url item) [],
      he_visitCount = int_or_zero (hi_visitCount item),
      he_lastVisitTime = int_or_zero (hi_lastVisitTime item)\<rparr>"

definition getRecentHistory ::
  "int \<Rightarrow> (history_query \<Rightarrow> error + history_item list) \<Rightarrow> history_entry list" where
  "getRecentHistory now history_search =
     (let twoHoursAgo = now - 2 * 60 * 60 * 1000 in
      case history_search \<lparr>q_text = [], q_startTime = twoHoursAgo, q_maxResults = 15\<rparr> of
        Inl e \<Rightarrow> []
      | Inr history \<Rightarrow> map history_entry_of (filter useful_item history))"

definition visited_often :: "history_item \<Rightarrow> bool" where
  "visited_often item = (case hi_visitCount item of None \<Rightarrow> False | Some n \<Rightarrow> n > 1)"

definition top_entry_of :: "history_item \<Rightarrow> top_entry" where
  "top_entry_of item =
     \<lparr>te_title = or_else (hi_title item) [],
      te_url = or_else (hi_url item) [],
      te_visitCount = int_or_zero (hi_visitCount item)\<rparr>"

text \<open>
  \<^verbatim>\<open>sort((a, b) => b.visitCount - a.visitCount)\<close> is a stable sort by descending visit
  count; every item that reaches it has passed \<open>visited_often\<close>, so its count is defined.
\<close>

definition getTopVisitedTitles ::
  "int \<Rightarrow> (history_query \<Rightarrow> error + history_item list) \<Rightarrow> top_entry list" where
  "getTopVisitedTitles now history_search =
     (let oneWeekAgo = now - 7 * 24 * 60 * 60 * 1000 in
      case history_search \<lparr>q_text = [], q_startTime = oneWeekAgo, q_maxResults = 50\<rparr> of
        Inl e \<Rightarrow> []
      | Inr history \<Rightarrow>
          map top_entry_of
            (take 5
              (sort_key (\<lambda>item. - int_or_zero (hi_visitCount item))
                (filter (\<lambda>item. useful_item item \<and> visited_often item) history))))"

text \<open>
  \<^verbatim>\<open>isSensitiveInput\<close>: the patterns carry the flag \<^verbatim>\<open>i\<close> and are tested on the
  lower-cased text, where a case-insensitive match of a lower-case pattern is a plain
  match.
\<close>

definition sensitivePatterns :: "rx list" where
  "sensitivePatterns =
     [Lit ''password'', Lit ''passwd'', Lit ''pwd'',
      opt_sep sep_dash ''credit'' ''card'', opt_sep sep_dash ''cc'' ''number'',
      Lit ''ssn'', opt_sep sep_dash ''social'' ''security'',
      opt_sep sep_dash ''bank'' ''account'', opt_sep sep_dash ''account'' ''number'',
      Lit ''cvv'', Lit ''cvc'', Lit ''pin'',
      opt_sep sep_dash ''api'' ''key'', Lit ''token'']"

definition isSensitiveInput :: "string \<Rightarrow> string \<Rightarrow> bool" where
  "isSensitiveInput text fieldName =
     (let combinedText = toLowerCase (text @ '' '' @ fieldName) in
      list_ex (\<lambda>pattern. rx_test pattern combinedText) sensitivePatterns)"


section \<open>Field classification (src/services/form-detector.js, src/content/content-script.js)\<close>

text \<open>
  The descriptor handed to \<^verbatim>\<open>FormDetector._classifyField\<close>; a missing attribute is
  \<open>None\<close>. A category is the string the source returns, \<open>None\<close> is \<^verbatim>\<open>null\<close>.
\<close>

record field_descriptor =
  fd_name :: "string option"
  fd_id :: "string option"
  fd_placeholder :: "string option"
  fd_autocomplete :: "string option"
  fd_label :: "string option"
  fd_type :: "string option"

definition sensitive_keywords :: "string list" where
  "sensitive_keywords =
     [''password'', ''passwd'', ''pwd'', ''credit'', ''card'', ''cvv'', ''cvc'',
      ''ssn'', ''social security'', ''bank'', ''pin'', ''otp'', ''auth'', ''token'',
      ''verification code'', ''secret'']"

definition combined_text :: "field_descriptor \<Rightarrow> string" where
  "combined_text meta =
     toLowerCase (join_opt '' ''
       [fd_name meta, fd_id meta, fd_placeholder meta,
        fd_autocomplete meta, fd_label meta, fd_type meta])"

text \<open>\<^verbatim>\<open>(^|\W)(...)(\W|$)\<close>\<close>

definition whole_word :: "rx \<Rightarrow> rx" where
  "whole_word r = Seq (Alt Bol (Cls non_word)) (Seq r (Alt (Cls non_word) Eol))"

definition classifyField_rules :: "field_descriptor \<Rightarrow> string \<Rightarrow> string option" where
  "classifyField_rules meta combined =
    (if rx_test (whole_word (alts [opt_sep sep_dash ''first'' ''name'', Lit ''fname'',
                                   opt_sep sep_dash ''given'' ''name''])) combined
     then Some ''first_name''
     else if rx_test (whole_word (alts [opt_sep sep_dash ''last'' ''name'', Lit ''lname'',
                                        opt_sep sep_dash ''family'' ''name'', Lit ''surname''])) combined
     then Some ''last_name''
     else if rx_test (whole_word (alts [opt_sep sep_dash ''full'' ''name'',
                                        opt_sep sep_dash ''your'' ''name'', Lit ''name''])) combined
     then Some ''full_name''
     else if rx_test (alts [Lit ''email'', Lit ''e-mail'', Lit ''mail'']) combined
     then Some ''email''
     else if rx_test (alts [opt_sep sep_dash ''job'' ''title'', Lit ''position'', Lit ''role'',
                            Lit ''designation'', Lit ''occupation'']) combined
     then Some ''job_title''
     else if rx_test (alts [Lit ''company'', Lit ''employer'', Lit ''organisation'',
                            Lit ''organization'', Lit ''workplace'', Lit ''firm'']) combined
     then Some ''company''
     else if rx_test (alts [Lit ''linkedin'', with_sep any_char ''linked'' ''in'']) combined
     then Some ''linkedin_url''
     else if rx_test (alts [Lit ''github'', with_sep sep_dash ''git'' ''hub'']) combined
     then Some ''github_url''
     else if rx_test (alts [Lit ''website'', Lit ''portfolio'', opt_sep sep_dash ''personal'' ''site'',
                            Lit ''homepage'', Lit ''url'', Lit ''link'']) combined
     then Some ''website''
     else if rx_test (alts [Seq (opt_sep sep_plain ''years'' ''of'') (Seq (Opt (Cls sep_plain)) (Lit ''exp'')),
                            opt_sep sep_plain ''experience'' ''years'', Lit ''yoe'']) combined
     then Some ''experience_years''
     else if rx_test (alts [Lit ''skill'', Lit ''expertise'', Lit ''technology'',
                            opt_sep sep_plain ''tech'' ''stack'', Lit ''languages'', Lit ''tools'']) combined
     then Some ''skills''
     else if rx_test (alts [Lit ''os'', opt_sep sep_plain ''operating'' ''system'', Lit ''platform'']) combined
     then Some ''os''
     else if rx_test (alts [Lit ''browser'', opt_sep sep_plain ''user'' ''agent'']) combined
     then Some ''browser''
     else if rx_test (alts [Lit ''version'', opt_sep sep_plain ''app'' ''version'',
                            opt_sep sep_plain ''software'' ''version'']) combined
     then Some ''version''
     else if rx_test (alts [Lit ''subject'', opt_sep sep_plain ''issue'' ''title'',
                            opt_sep sep_plain ''ticket'' ''title'', Lit ''summary'']) combined
     then Some ''issue_subject''
     else if rx_test (alts [Lit ''description'', Lit ''details'', Lit ''body'', Lit ''message'',
                            Lit ''explain'', Lit ''steps'']) combined
     then Some ''issue_description''
     else if rx_test (alts [Lit ''city'', Lit ''town'', Lit ''municipality'']) combined
     then Some ''city''
     else if rx_test (Lit ''country'') combined
     then Some ''country''
     else if rx_test (alts [Lit ''zip'', Lit ''postal'', Lit ''postcode'']) combined
     then Some ''zip''
     else if fd_type meta = Some ''search''
             \<or> rx_test (alts [Lit ''search'', Lit ''query'', Lit ''q'']) combined
     then Some ''search''
     else None)"

definition classifyField_detector :: "field_descriptor \<Rightarrow> string option" where
  "classifyField_detector meta =
     (let combined = combined_text meta in
      if list_ex (\<lambda>k. includes_str combined k) sensitive_keywords then Some ''sensitive''
      else if fd_type meta = Some ''password'' \<or> fd_type meta = Some ''tel'' then Some ''sensitive''
      else classifyField_rules meta combined)"

text \<open>
  The content script carries its own table, \<^verbatim>\<open>FORM_FIELD_PATTERNS\<close>, walked in the order
  of its keys. An element is given by the attributes the script reads;
  \<open>el_autocomplete_attr\<close> and \<open>el_aria_label\<close> are the results of \<^verbatim>\<open>getAttribute\<close>,
  \<open>el_autocomplete\<close> is the property.
\<close>

record element =
  el_name :: "string option"
  el_id :: "string option"
  el_placeholder :: "string option"
  el_autocomplete_attr :: "string option"
  el_aria_label :: "string option"
  el_type :: "string option"
  el_autocomplete :: "string option"

definition FORM_FIELD_PATTERNS :: "(string \<times> string list) list" where
  "FORM_FIELD_PATTERNS =
     [(''sensitive'', [''password'', ''passwd'', ''pwd'', ''credit'', ''card'', ''cvv'', ''cvc'',
                      ''ssn'', ''bank'', ''pin'', ''otp'', ''auth'', ''token'', ''secret'']),
      (''job_title'', [''job_title'', ''jobtitle'', ''position'', ''role'', ''designation'',
                      ''occupation'', ''title'']),
      (''company'', [''company'', ''employer'', ''organisation'', ''organization'',
                    ''workplace'', ''firm'']),
      (''os'', [''operating_system'', ''operatingsystem'', ''platform'', '' os '']),
      (''browser'', [''browser'', ''useragent'', ''user_agent'']),
      (''version'', [''version'', ''appversion'', ''softwareversion'']),
      (''skills'', [''skill'', ''expertise'', ''technology'', ''techstack'', ''languages'', ''tools'']),
      (''linkedin_url'', [''linkedin'']),
      (''github_url'', [''github'']),
      (''issue_subject'', [''subject'', ''issuetitle'', ''tickettitle'', ''summary'']),
      (''issue_description'', [''description'', ''details'', ''body'', ''message'',
                              ''explain'', ''steps''])]"

text \<open>\<^verbatim>\<open>replace(/[-\s]/g, '_')\<close>\<close>

definition underscored :: "string \<Rightarrow> string" where
  "underscored s = map (\<lambda>c. if c = CHR ''-'' \<or> is_space c then CHR ''_'' else c) s"

definition element_text :: "element \<Rightarrow> string" where
  "element_text el =
     underscored (toLowerCase (join_opt '' ''
       [el_name el, el_id el, el_placeholder el,
        el_autocomplete_attr el, el_aria_label el, el_type el]))"

fun first_pattern :: "string \<Rightarrow> (string \<times> string list) list \<Rightarrow> string option" where
  "first_pattern combined [] = None"
| "first_pattern combined ((type, keywords) # rest) =
     (if list_ex (\<lambda>k. includes_str combined (underscored k)) keywords
      then (if type = ''sensitive'' then None else Some type)
      else first_pattern combined rest)"

definition classifyField :: "element option \<Rightarrow> string option" where
  "classifyField element =
     (case element of
        None \<Rightarrow> None
      | Some el \<Rightarrow> first_pattern (element_text el) FORM_FIELD_PATTERNS)"

text \<open>A template literal renders a missing value as the word \<^verbatim>\<open>undefined\<close>.\<close>

definition template :: "string option \<Rightarrow> string" where
  "template x = (case x of None \<Rightarrow> ''undefined'' | Some s \<Rightarrow> s)"

definition isSensitiveField :: "element option \<Rightarrow> bool" where
  "isSensitiveField element =
     (case element of
        None \<Rightarrow> False
      | Some el \<Rightarrow>
          (let type = map_option toLowerCase (el_type el) in
           if type = Some ''password'' \<or> type = Some ''tel'' \<or> type = Some ''number'' then True
           else
             (let combinedText = toLowerCase
                    (template (el_name el) @ '' '' @ template (el_id el) @ '' '' @
                     template (el_autocomplete el) @ '' '' @ template (el_placeholder el))
              in list_ex (\<lambda>k. includes_str combinedText k)
                   [''password'', ''passwd'', ''credit'', ''card'', ''cvv'', ''ssn'', ''bank'',
                    ''pin'', ''token'', ''auth'', ''login'', ''otp'', ''verification''])))"


section \<open>Inference client and response validator (src/services/groq-service.js)\<close>

subsection \<open>JSON values\<close>

text \<open>
  A parsed JSON value. A number is carried as the text \<^verbatim>\<open>String(n)\<close> gives for it
  (\<^verbatim>\<open>0\<close> for either zero), an object as its members in source order.
  \<^verbatim>\<open>undefined\<close> is \<open>None\<close> of \<open>json option\<close>.
\<close>

datatype json =
    JNull
  | JBool bool
  | JNum string
  | JStr string
  | JArr "json list"
  | JObj "(string \<times> json) list"

definition truthy :: "json \<Rightarrow> bool" where
  "truthy v =
     (case v of
        JNull \<Rightarrow> False
      | JBool b \<Rightarrow> b
      | JNum n \<Rightarrow> n \<noteq> ''0''
      | JStr s \<Rightarrow> s \<noteq> []
      | JArr xs \<Rightarrow> True
      | JObj kvs \<Rightarrow> True)"

definition truthy_opt :: "json option \<Rightarrow> bool" where
  "truthy_opt v = (case v of None \<Rightarrow> False | Some x \<Rightarrow> truthy x)"

text \<open>\<^verbatim>\<open>a || b\<close>\<close>

definition js_or :: "json option \<Rightarrow> json option \<Rightarrow> json option" where
  "js_or a b = (if truthy_opt a then a else b)"

text \<open>
  Reading a named member of a value other than \<^verbatim>\<open>null\<close>. The names the source reads
  (\<^verbatim>\<open>text\<close>, \<^verbatim>\<open>suggestions\<close>, \<^verbatim>\<open>choices\<close>, ...) are members of parsed objects only; when a
  name occurs twice in an object, \<^verbatim>\<open>JSON.parse\<close> keeps the last.
\<close>

definition member_of :: "json \<Rightarrow> string \<Rightarrow> json option" where
  "member_of v k = (case v of JObj kvs \<Rightarrow> map_of (rev kvs) k | _ \<Rightarrow> None)"

text \<open>\<^verbatim>\<open>v[0]\<close>\<close>

definition index0 :: "json \<Rightarrow> json option" where
  "index0 v =
     (case v of
        JArr xs \<Rightarrow> (case xs of [] \<Rightarrow> None | x # _ \<Rightarrow> Some x)
      | JStr s \<Rightarrow> (case s of [] \<Rightarrow> None | c # _ \<Rightarrow> Some (JStr [c]))
      | JObj kvs \<Rightarrow> map_of (rev kvs) ''0''
      | _ \<Rightarrow> None)"

text \<open>\<^verbatim>\<open>v?.member\<close>: \<^verbatim>\<open>undefined\<close> when \<open>v\<close> is \<^verbatim>\<open>undefined\<close> or \<^verbatim>\<open>null\<close>.\<close>

definition opt_chain :: "json option \<Rightarrow> (json \<Rightarrow> json option) \<Rightarrow> json option" where
  "opt_chain v f = (case v of None \<Rightarrow> None | Some JNull \<Rightarrow> None | Some x \<Rightarrow> f x)"

text \<open>\<^verbatim>\<open>String(v)\<close>; an array joins its elements with commas, \<^verbatim>\<open>null\<close> elements as nothing.\<close>

fun js_String :: "json \<Rightarrow> string" where
  "js_String JNull = ''null''"
| "js_String (JBool b) = (if b then ''true'' else ''false'')"
| "js_String (JNum n) = n"
| "js_String (JStr s) = s"
| "js_String (JArr xs) = join '','' (map (\<lambda>x. if x = JNull then [] else js_String x) xs)"
| "js_String (JObj kvs) = ''[object Object]''"

function show_nat :: "nat \<Rightarrow> string" where
  "show_nat n =
     (if n < 10 then [char_of (48 + n)]
      else show_nat (n div 10) @ [char_of (48 + n mod 10)])"
  by pat_completeness auto
termination
  by (relation "measure id") auto

declare show_nat.simps [simp del]

subsection \<open>Suggestions and results\<close>

record suggestion =
  s_text :: string
  s_derivation :: string

text \<open>
  The object a generation returns: \<^verbatim>\<open>{reason, suggestions, isFormFill, error}\<close>. A missing
  \<^verbatim>\<open>reason\<close> or \<^verbatim>\<open>error\<close> is \<open>None\<close>; a missing \<^verbatim>\<open>isFormFill\<close> is \<open>False\<close>, which is
  how its only reader takes it.
\<close>

record result =
  r_reason :: "json option"
  r_suggestions :: "suggestion list"
  r_isFormFill :: bool
  r_error :: "string option"

record candidate =
  c_value :: string
  c_source :: string
  c_confidence :: rat

record fieldMeta =
  fieldType :: string
  fieldLabel :: string
  isFormFill :: bool
  candidates :: "candidate list"

record session_intent =
  sessionSummary :: "string option"
  recentThread :: "string option"

record request_context =
  active_input_text :: string
  active_tabs :: "tab_info list"
  recent_history :: "history_entry list"
  top_visited_titles :: "top_entry list"
  ctx_fieldMeta :: "fieldMeta option"
  sessionIntent :: "session_intent option"

subsection \<open>Validation of the model's answer\<close>

definition normalise_entry :: "json \<Rightarrow> suggestion option" where
  "normalise_entry s =
     (let as_object =
            (let text = js_or (member_of s ''text'') (member_of s ''suggestion'');
                 derivation = js_or (js_or (member_of s ''derivation'') (member_of s ''explanation''))
                                (member_of s ''reason'')
             in case text of
                  None \<Rightarrow> None
                | Some t \<Rightarrow>
                    if truthy t
                    then Some \<lparr>s_text = trim (js_String t),
                               s_derivation =
                                 (case derivation of
                                    None \<Rightarrow> ''Based on context''
                                  | Some d \<Rightarrow> if truthy d then trim (js_String d)
                                              else ''Based on context'')\<rparr>
                    else None)
      in case s of
           JObj kvs \<Rightarrow> as_object
         | JArr xs \<Rightarrow> as_object
         | JStr str \<Rightarrow> Some \<lparr>s_text = trim str, s_derivation = ''Based on context''\<rparr>
         | _ \<Rightarrow> None)"

text \<open>\<^verbatim>\<open>/^[{}\[\]"'`]+$/\<close>\<close>

definition bracket_quote_chars :: "char list" where
  "bracket_quote_chars =
     [CHR ''{'', CHR ''}'', CHR ''['', CHR '']'', CHR 0x22, CHR 0x27, CHR 0x60]"

definition only_brackets_quotes :: "string \<Rightarrow> bool" where
  "only_brackets_quotes text = (text \<noteq> [] \<and> list_all (\<lambda>c. List.member bracket_quote_chars c) text)"

definition keep_entry :: "suggestion option \<Rightarrow> bool" where
  "keep_entry s =
     (case s of
        None \<Rightarrow> False
      | Some e \<Rightarrow>
          (let text = s_text e in
           if text = [] then False
           else if length text < 3 \<or> length text > 200 then False
           else if only_brackets_quotes text then False
           else if includes_str (toLowerCase text) ''reason:'' then False
           else if includes_str (toLowerCase text) ''suggestions:'' then False
           else True))"

text \<open>
  Following the spec's words, for comparison with \<open>keep_entry\<close>: a text made only of
  punctuation or bracket characters (the printable ASCII characters that are neither
  letters, digits nor the space), and a text that echoes a field name of the answer's
  schema (\<^verbatim>\<open>reason\<close>, \<^verbatim>\<open>suggestions\<close>, \<^verbatim>\<open>text\<close>, \<^verbatim>\<open>derivation\<close>) as a key.
\<close>

definition spec_punctuation_char :: "char \<Rightarrow> bool" where
  "spec_punctuation_char c =
     (let n = code_unit c in
      (33 \<le> n \<and> n \<le> 47) \<or> (58 \<le> n \<and> n \<le> 64) \<or> (91 \<le> n \<and> n \<le> 96)
      \<or> (123 \<le> n \<and> n \<le> 126))"

definition spec_purely_punctuation :: "string \<Rightarrow> bool" where
  "spec_purely_punctuation text = (text \<noteq> [] \<and> list_all spec_punctuation_char text)"

definition spec_echoes_field_name :: "string \<Rightarrow> bool" where
  "spec_echoes_field_name text =
     list_ex (\<lambda>name. includes_str (toLowerCase text) (name @ '':''))
       [''reason'', ''suggestions'', ''text'', ''derivation'']"

fun somes :: "'a option list \<Rightarrow> 'a list" where
  "somes [] = []"
| "somes (None # xs) = somes xs"
| "somes (Some x # xs) = x # somes xs"

definition validateSuggestions :: "json \<Rightarrow> suggestion list" where
  "validateSuggestions suggestions =
     (case suggestions of
        JArr xs \<Rightarrow> take 3 (somes (filter keep_entry (map normalise_entry xs)))
      | _ \<Rightarrow> [])"

definition sourceLabel :: "nat \<Rightarrow> string" where
  "sourceLabel index =
     (if index = 0 then ''Session'' else if index = 1 then ''Context'' else ''Smart'')"

definition enhance :: "nat \<Rightarrow> suggestion \<Rightarrow> suggestion" where
  "enhance index s =
     (let derivation = s_derivation s;
          enhancedDerivation =
            (if startsWith derivation (sourceLabel index) then derivation
             else sourceLabel index @ '': '' @ derivation)
      in s\<lparr>s_derivation := enhancedDerivation\<rparr>)"

definition validateSuggestionOrdering :: "suggestion list \<Rightarrow> suggestion list" where
  "validateSuggestionOrdering suggestions =
     map (\<lambda>(index, s). enhance index s) (zip [0 ..< length suggestions] suggestions)"

definition normalized :: "suggestion \<Rightarrow> suggestion" where
  "normalized s =
     \<lparr>s_text = s_text s,
      s_derivation = (if s_derivation s = [] then ''Based on context'' else s_derivation s)\<rparr>"

text \<open>What both parse attempts do with a value that \<^verbatim>\<open>JSON.parse\<close> delivered.\<close>

definition accept_parsed :: "json \<Rightarrow> result option" where
  "accept_parsed parsed =
     (case member_of parsed ''suggestions'' of
        Some (JArr xs) \<Rightarrow>
          if xs = [] then None
          else
            (let validated =
                   validateSuggestionOrdering (map normalized (validateSuggestions (JArr xs)))
             in if validated = [] then None
                else Some \<lparr>r_reason =
                             (if truthy_opt (member_of parsed ''reason'') then member_of parsed ''reason''
                              else Some (JStr ''Based on your browsing context'')),
                           r_suggestions = validated,
                           r_isFormFill = False,
                           r_error = None\<rparr>)
      | _ \<Rightarrow> None)"

text \<open>
  Stripping the code fence: \<^verbatim>\<open>/^```json\s*/i\<close>, then \<^verbatim>\<open>/^```\s*/\<close>, then the leftmost
  match of \<^verbatim>\<open>/```\s*$/\<close>.
\<close>

definition fence :: string where
  "fence = [CHR 0x60, CHR 0x60, CHR 0x60]"

definition strip_fence_json :: "string \<Rightarrow> string" where
  "strip_fence_json s =
     (if startsWith s fence \<and> toLowerCase (take 4 (drop 3 s)) = ''json''
      then dropWhile is_space (drop 7 s) else s)"

definition strip_fence_open :: "string \<Rightarrow> string" where
  "strip_fence_open s = (if startsWith s fence then dropWhile is_space (drop 3 s) else s)"

fun strip_fence_close :: "string \<Rightarrow> string" where
  "strip_fence_close [] = []"
| "strip_fence_close (c # cs) =
     (if startsWith (c # cs) fence \<and> list_all is_space (drop 3 (c # cs)) then []
      else c # strip_fence_close cs)"

definition cleaned_text :: "string \<Rightarrow> string" where
  "cleaned_text content =
     trim (strip_fence_close (strip_fence_open (strip_fence_json (trim content))))"

text \<open>
  \<^verbatim>\<open>cleaned.match(/\{[\s\S]*\}/)\<close>: from the first opening brace to the last closing
  brace after it.
\<close>

definition brace_match :: "string \<Rightarrow> string option" where
  "brace_match s =
     (let from_open = dropWhile (\<lambda>c. c \<noteq> CHR ''{'') s;
          m = rev (dropWhile (\<lambda>c. c \<noteq> CHR ''}'') (rev from_open))
      in if m = [] then None else Some m)"

definition parse_failure :: result where
  "parse_failure =
     \<lparr>r_reason = Some (JStr ''Could not parse AI response''), r_suggestions = [],
      r_isFormFill = False, r_error = None\<rparr>"

text \<open>
  \<^verbatim>\<open>JSON.parse\<close> is the host's: \<open>json_parse s\<close> is \<open>None\<close> when it throws. A first attempt
  that parses but yields no accepted suggestion falls through to the second, as in the
  source.
\<close>

definition parseResponse :: "(string \<Rightarrow> json option) \<Rightarrow> string \<Rightarrow> result" where
  "parseResponse json_parse content =
     (let cleaned = cleaned_text content;
          direct = (case json_parse cleaned of
                      None \<Rightarrow> None
                    | Some parsed \<Rightarrow> accept_parsed parsed)
      in case direct of
           Some r \<Rightarrow> r
         | None \<Rightarrow>
             (case brace_match cleaned of
                None \<Rightarrow> parse_failure
              | Some jsonMatch \<Rightarrow>
                  (case json_parse jsonMatch of
                     None \<Rightarrow> parse_failure
                   | Some parsed \<Rightarrow>
                       (case accept_parsed parsed of
                          Some r \<Rightarrow> r
                        | None \<Rightarrow> parse_failure))))"


subsection \<open>Prompts\<close>

definition quoted_titles :: "string list \<Rightarrow> string" where
  "quoted_titles titles =
     join '', '' (map (\<lambda>t. [CHR 0x22] @ take 40 t @ [CHR 0x22]) (take 2 titles))"

definition summary_of :: "request_context \<Rightarrow> string" where
  "summary_of ctx = (case sessionIntent ctx of None \<Rightarrow> [] | Some i \<Rightarrow> or_else (sessionSummary i) [])"

definition thread_of :: "request_context \<Rightarrow> string" where
  "thread_of ctx = (case sessionIntent ctx of None \<Rightarrow> [] | Some i \<Rightarrow> or_else (recentThread i) [])"

definition buildContextAwarePrompt :: "request_context \<Rightarrow> string" where
  "buildContextAwarePrompt ctx =
     (let input = active_input_text ctx;
          parts = [''Q:'' @ [CHR 0x22] @ input @ [CHR 0x22]]
            @ (if summary_of ctx \<noteq> [] then [''SESSION:'' @ summary_of ctx] else [])
            @ (if thread_of ctx \<noteq> [] then [''THREAD:'' @ take 120 (thread_of ctx)] else [])
            @ (if active_tabs ctx \<noteq> []
               then [''TABS:'' @ quoted_titles (map ti_title (active_tabs ctx))] else [])
            @ (if recent_history ctx \<noteq> []
               then [''HIST:'' @ quoted_titles (map he_title (recent_history ctx))] else [])
      in join [CHR 0x0A] parts)"

definition buildFormFieldPrompt :: "request_context \<Rightarrow> string" where
  "buildFormFieldPrompt ctx =
     (let fieldType = (case ctx_fieldMeta ctx of None \<Rightarrow> ''unknown''
                        | Some m \<Rightarrow> or_else (Some (fieldType m)) ''unknown'');
          fieldLabel = (case ctx_fieldMeta ctx of None \<Rightarrow> ''field''
                         | Some m \<Rightarrow> or_else (Some (fieldLabel m)) ''field'');
          currentValue = active_input_text ctx;
          parts = [''FIELD_TYPE:'' @ fieldType,
                   ''FIELD_LABEL:'' @ [CHR 0x22] @ fieldLabel @ [CHR 0x22],
                   ''CURRENT_VALUE:'' @ [CHR 0x22] @ currentValue @ [CHR 0x22]]
            @ (if summary_of ctx \<noteq> [] then [''SESSION:'' @ summary_of ctx] else [])
            @ (if active_tabs ctx \<noteq> []
               then [''TABS:'' @ quoted_titles (map ti_title (active_tabs ctx))] else [])
      in join [CHR 0x0A] parts)"

text \<open>The two system prompts are fixed texts; the model records which one is sent.\<close>

datatype system_prompt = ContextAwareSystemPrompt | FormFillSystemPrompt

subsection \<open>The HTTP call and its retry\<close>

record http_request =
  rq_apiKey :: string
  rq_system :: system_prompt
  rq_user :: string

text \<open>
  A response: its status, the header \<^verbatim>\<open>retry-after\<close> (\<open>None\<close> when absent) and what
  \<^verbatim>\<open>response.json()\<close> resolves to, or the error it rejects with.
\<close>

record http_response =
  status :: nat
  retry_after :: "string option"
  body :: "error + json"

definition ok :: "http_response \<Rightarrow> bool" where
  "ok response = (200 \<le> status response \<and> status response \<le> 299)"

text \<open>
  What a generation does to the outside, in order: the prompt it builds, each HTTP
  request it makes, each pause before a retry (\<open>Slept t\<close> waits
  \<^verbatim>\<open>parseFloat(t) * 1000\<close> milliseconds), and the two writes of the service worker.
\<close>

datatype event =
    Prompted string
  | Fetched http_request
  | Slept string
  | Recorded string "suggestion list"
  | Stored string "suggestion list"

definition api_error_message :: "http_response \<Rightarrow> json \<Rightarrow> error + string" where
  "api_error_message response err =
     (if err = JNull then Inl (Error ''Cannot read properties of null'')
      else
        (let message = opt_chain (member_of err ''error'') (\<lambda>e. member_of e ''message'') in
         Inr (case message of
                None \<Rightarrow> ''API Error: '' @ show_nat (status response)
              | Some m \<Rightarrow> if truthy m then js_String m
                          else ''API Error: '' @ show_nat (status response))))"

definition response_content :: "json \<Rightarrow> error + json option" where
  "response_content data =
     (if data = JNull then Inl (Error ''Cannot read properties of null'')
      else Inr (opt_chain (opt_chain (opt_chain (member_of data ''choices'') index0)
                             (\<lambda>c. member_of c ''message''))
                  (\<lambda>m. member_of m ''content'')))"

text \<open>
  \<open>fetch k request\<close> is the host's answer to the request made as attempt \<open>k\<close>: a response,
  or the error \<^verbatim>\<open>fetch\<close> rejects with. The result of \<open>callWithRetry\<close> is the value it
  resolves to (\<open>Inr\<close>) or the error it throws (\<open>Inl\<close>), with the events in order.
\<close>

function callWithRetry ::
  "(nat \<Rightarrow> http_request \<Rightarrow> error + http_response) \<Rightarrow> (string \<Rightarrow> json option) \<Rightarrow>
   string \<Rightarrow> string \<Rightarrow> system_prompt \<Rightarrow> nat \<Rightarrow> (error + result) \<times> event list" where
  "callWithRetry fetch json_parse apiKey prompt systemPrompt attempt =
     (let request = \<lparr>rq_apiKey = apiKey, rq_system = systemPrompt, rq_user = prompt\<rparr> in
      case fetch attempt request of
        Inl e \<Rightarrow> (Inl e, [Fetched request])
      | Inr response \<Rightarrow>
          if status response = 429 \<and> attempt = 0 then
            (let retryAfter = or_else (retry_after response) ''2'';
                 again = callWithRetry fetch json_parse apiKey prompt systemPrompt 1
             in (fst again, Fetched request # Slept retryAfter # snd again))
          else if \<not> ok response then
            (case body response of
               Inl e \<Rightarrow> (Inl e, [Fetched request])
             | Inr err \<Rightarrow>
                 (case api_error_message response err of
                    Inl e \<Rightarrow> (Inl e, [Fetched request])
                  | Inr message \<Rightarrow> (Inl (Error message), [Fetched request])))
          else
            (case body response of
               Inl e \<Rightarrow> (Inl e, [Fetched request])
             | Inr data \<Rightarrow>
                 (case response_content data of
                    Inl e \<Rightarrow> (Inl e, [Fetched request])
                  | Inr content \<Rightarrow>
                      if \<not> truthy_opt content
                      then (Inl (Error ''No response content from Groq''), [Fetched request])
                      else
                        (case content of
                           Some (JStr s) \<Rightarrow> (Inr (parseResponse json_parse s), [Fetched request])
                         | _ \<Rightarrow> (Inl (Error ''content.trim is not a function''),
                                 [Fetched request])))))"
  by pat_completeness auto
termination
  by (relation "measure (\<lambda>(fetch, json_parse, apiKey, prompt, systemPrompt, attempt). 1 - attempt)")
     auto

declare callWithRetry.simps [simp del]

subsection \<open>Configuration manager (src/unnamed/part_001)\<close>

record config =
  groqApiKey :: "string option"
  enableHistoryTracking :: bool

record config_manager =
  cm_config :: "config option"
  cm_initialized :: bool

definition getApiKey :: "config_manager \<Rightarrow> error + string" where
  "getApiKey cm =
     (case cm_config cm of
        None \<Rightarrow> Inl (Error ''Groq API key not configured'')
      | Some c \<Rightarrow>
          (case groqApiKey c of
             None \<Rightarrow> Inl (Error ''Groq API key not configured'')
           | Some k \<Rightarrow> if k = [] then Inl (Error ''Groq API key not configured'') else Inr k))"

definition isConfigured :: "config_manager \<Rightarrow> bool" where
  "isConfigured cm =
     (case cm_config cm of
        None \<Rightarrow> False
      | Some c \<Rightarrow> (case groqApiKey c of None \<Rightarrow> False | Some k \<Rightarrow> k \<noteq> []))"

text \<open>\<open>stored\<close> is what reading the extension's storage gives: the stored settings or an error.\<close>

definition initialize :: "error + config \<Rightarrow> config_manager \<Rightarrow> error + config_manager" where
  "initialize stored cm =
     (if cm_initialized cm then Inr cm
      else case stored of
             Inl e \<Rightarrow> Inl (Error ''Configuration initialization failed'')
           | Inr c \<Rightarrow> Inr \<lparr>cm_config = Some c, cm_initialized = True\<rparr>)"

subsection \<open>Generation (\<^verbatim>\<open>GroqService.generateSuggestions\<close>)\<close>

definition buildFormFillResponse :: "fieldMeta \<Rightarrow> result" where
  "buildFormFillResponse meta =
     \<lparr>r_reason = Some (JStr (''Smart fill for '' @ [CHR 0x22] @ fieldLabel meta @ [CHR 0x22])),
      r_suggestions =
        map (\<lambda>c. \<lparr>s_text = c_value c, s_derivation = ''Auto-filled from '' @ c_source c\<rparr>)
          (candidates meta),
      r_isFormFill = True,
      r_error = None\<rparr>"

definition error_result :: "error \<Rightarrow> result" where
  "error_result e =
     (case e of Error message \<Rightarrow>
        \<lparr>r_reason = Some (JStr ''Error generating suggestions''), r_suggestions = [],
         r_isFormFill = False, r_error = Some message\<rparr>)"

text \<open>\<^verbatim>\<open>context.fieldMeta?.isFormFill && context.fieldMeta.candidates?.length > 0\<close>\<close>

definition form_fill_meta :: "request_context \<Rightarrow> fieldMeta option" where
  "form_fill_meta ctx =
     (case ctx_fieldMeta ctx of
        None \<Rightarrow> None
      | Some m \<Rightarrow> if isFormFill m \<and> candidates m \<noteq> [] then Some m else None)"

definition has_field_type :: "request_context \<Rightarrow> bool" where
  "has_field_type ctx = (case ctx_fieldMeta ctx of None \<Rightarrow> False | Some m \<Rightarrow> fieldType m \<noteq> [])"

definition generateSuggestions_groq ::
  "config_manager \<Rightarrow> (nat \<Rightarrow> http_request \<Rightarrow> error + http_response) \<Rightarrow> (string \<Rightarrow> json option) \<Rightarrow>
   request_context \<Rightarrow> result \<times> event list" where
  "generateSuggestions_groq cm fetch json_parse ctx =
     (case getApiKey cm of
        Inl e \<Rightarrow> (error_result e, [])
      | Inr apiKey \<Rightarrow>
          (case form_fill_meta ctx of
             Some m \<Rightarrow> (buildFormFillResponse m, [])
           | None \<Rightarrow>
               (let prompt = (if has_field_type ctx then buildFormFieldPrompt ctx
                              else buildContextAwarePrompt ctx);
                    systemPrompt = (if has_field_type ctx then FormFillSystemPrompt
                                    else ContextAwareSystemPrompt);
                    call = callWithRetry fetch json_parse apiKey prompt systemPrompt 0
                in case fst call of
                     Inl e \<Rightarrow> (error_result e, Prompted prompt # snd call)
                   | Inr r \<Rightarrow> (r, Prompted prompt # snd call))))"


section \<open>Service worker (src/services/session-tracker.js)\<close>

text \<open>
  The file of this name holds the background service worker: the message handler and
  its \<^verbatim>\<open>generateSuggestions\<close>. The record \<open>host\<close> is
  everything the service worker reads from the browser during one generation, and the
  two collaborators whose source is not part of the repository snapshot
  (\<^verbatim>\<open>sessionTracker.getIntentContext\<close> and \<^verbatim>\<open>sessionTracker.recordQuery\<close>), taken as they
  answer: a value, or the error they throw.
\<close>

record host =
  h_now :: int
  h_extensionEnabled :: "error + bool option"
  h_stored_config :: "error + config"
  h_window_tabs :: "error + tab list"
  h_active_tab :: "error + tab list"
  h_history_search :: "history_query \<Rightarrow> error + history_item list"
  h_active_input :: "error + string option"
  h_intent :: "error + session_intent option"
  h_recordQuery :: "string \<Rightarrow> suggestion list \<Rightarrow> error + unit"
  h_fetch :: "nat \<Rightarrow> http_request \<Rightarrow> error + http_response"
  h_json_parse :: "string \<Rightarrow> json option"

text \<open>The message data: \<^verbatim>\<open>data.context?.active_input_text\<close>, \<^verbatim>\<open>data.fieldName\<close>, \<^verbatim>\<open>data.fieldMeta\<close>.\<close>

record request_data =
  d_active_input_text :: "string option"
  d_fieldName :: "string option"
  d_fieldMeta :: "fieldMeta option"

record response =
  rs_success :: bool
  rs_reason :: "json option"
  rs_suggestions :: "suggestion list"
  rs_isFormFill :: bool
  rs_error :: "string option"

definition getActiveInputText :: "host \<Rightarrow> string" where
  "getActiveInputText h = (case h_active_input h of Inl e \<Rightarrow> [] | Inr t \<Rightarrow> or_else t [])"

text \<open>
  \<^verbatim>\<open>collectContext\<close>, with the fields the prompts read; the page, AI-tab, past-search and
  page-type fields it also gathers are read by nothing in the generation path.
\<close>

definition collectContext :: "host \<Rightarrow> request_context" where
  "collectContext h =
     \<lparr>active_input_text = getActiveInputText h,
      active_tabs = getActiveTabsContext (h_window_tabs h) (h_active_tab h),
      recent_history = getRecentHistory (h_now h) (h_history_search h),
      top_visited_titles = getTopVisitedTitles (h_now h) (h_history_search h),
      ctx_fieldMeta = None,
      sessionIntent = None\<rparr>"

definition plain_response :: "bool \<Rightarrow> string \<Rightarrow> response" where
  "plain_response success reason =
     \<lparr>rs_success = success, rs_reason = Some (JStr reason), rs_suggestions = [],
      rs_isFormFill = False, rs_error = None\<rparr>"

definition failure_response :: "string \<Rightarrow> response" where
  "failure_response message =
     \<lparr>rs_success = False, rs_reason = None, rs_suggestions = [],
      rs_isFormFill = False, rs_error = Some message\<rparr>"

definition success_response :: "result \<Rightarrow> response" where
  "success_response r =
     \<lparr>rs_success = True, rs_reason = r_reason r, rs_suggestions = r_suggestions r,
      rs_isFormFill = r_isFormFill r, rs_error = r_error r\<rparr>"

definition history_tracking :: "config_manager \<Rightarrow> bool" where
  "history_tracking cm = (case cm_config cm of None \<Rightarrow> False | Some c \<Rightarrow> enableHistoryTracking c)"

text \<open>
  The body of the \<^verbatim>\<open>try\<close> block of \<^verbatim>\<open>generateSuggestions\<close>: the response it returns or the
  error it throws, the configuration manager afterwards, and the events so far.
\<close>

definition worker_try ::
  "host \<Rightarrow> config_manager \<Rightarrow> request_data \<Rightarrow> (error + response) \<times> config_manager \<times> event list" where
  "worker_try h cm data =
     (case h_extensionEnabled h of
        Inl e \<Rightarrow> (Inl e, cm, [])
      | Inr stored \<Rightarrow>
          if \<not> (case stored of None \<Rightarrow> True | Some b \<Rightarrow> b)
          then (Inr (plain_response True ''Extension is disabled''), cm, [])
          else
            (case initialize (h_stored_config h) cm of
               Inl e \<Rightarrow> (Inl e, cm, [])
             | Inr cm' \<Rightarrow>
                 if \<not> isConfigured cm'
                 then (Inr (failure_response ''Groq API key not configured''), cm', [])
                 else
                   (let fullContext = collectContext h in
                    case h_intent h of
                      Inl e \<Rightarrow> (Inl e, cm', [])
                    | Inr intent \<Rightarrow>
                        (let mergedContext = fullContext
                               \<lparr>active_input_text :=
                                  or_else (d_active_input_text data) (active_input_text fullContext),
                                ctx_fieldMeta := d_fieldMeta data,
                                sessionIntent := intent\<rparr>;
                             text = active_input_text mergedContext
                         in if text \<noteq> [] \<and> or_else (d_fieldName data) [] \<noteq> []
                               \<and> isSensitiveInput text (or_else (d_fieldName data) [])
                            then (Inr (plain_response True ''Sensitive input detected''), cm', [])
                            else
                              (let generated = generateSuggestions_groq cm' (h_fetch h)
                                                 (h_json_parse h) mergedContext;
                                   result = fst generated;
                                   events = snd generated
                               in if text \<noteq> [] then
                                    (case h_recordQuery h text (r_suggestions result) of
                                       Inl e \<Rightarrow>
                                         (Inl e, cm', events @ [Recorded text (r_suggestions result)])
                                     | Inr u \<Rightarrow>
                                         (Inr (success_response result), cm',
                                          events @ [Recorded text (r_suggestions result)]
                                            @ (if history_tracking cm'
                                               then [Stored text (r_suggestions result)] else [])))
                                  else (Inr (success_response result), cm', events))))))"

text \<open>
  \<^verbatim>\<open>generateSuggestions\<close> with its \<^verbatim>\<open>catch\<close>. \<open>Inl\<close> in the first component would be an
  exception that leaves the function.
\<close>

definition generateSuggestions_worker ::
  "host \<Rightarrow> config_manager \<Rightarrow> request_data \<Rightarrow> (error + response) \<times> config_manager \<times> event list" where
  "generateSuggestions_worker h cm data =
     (case worker_try h cm data of
        (Inl (Error message), cm', events) \<Rightarrow> (Inr (failure_response message), cm', events)
      | (Inr r, cm', events) \<Rightarrow> (Inr r, cm', events))"

definition is_fetch :: "event \<Rightarrow> bool" where
  "is_fetch ev = (case ev of Fetched rq \<Rightarrow> True | _ \<Rightarrow> False)"

definition is_prompt :: "event \<Rightarrow> bool" where
  "is_prompt ev = (case ev of Prompted p \<Rightarrow> True | _ \<Rightarrow> False)"

definition fetches :: "event list \<Rightarrow> nat" where
  "fetches events = length (filter is_fetch events)"

definition prompts :: "event list \<Rightarrow> nat" where
  "prompts events = length (filter is_prompt events)"


section \<open>Content script (src/content/content-script.js)\<close>

subsection \<open>Local candidates\<close>

text \<open>
  \<open>capture_after lit cls s\<close> is the first capture group of the leftmost match of the
  literal \<open>lit\<close> followed by one or more characters of the class \<open>cls\<close>, as
  \<^verbatim>\<open>ua.match(/Mac OS X ([\d_]+)/)\<close> computes it.
\<close>

fun capture_after :: "string \<Rightarrow> (char \<Rightarrow> bool) \<Rightarrow> string \<Rightarrow> string option" where
  "capture_after lit cls [] = None"
| "capture_after lit cls (c # cs) =
     (if startsWith (c # cs) lit \<and> takeWhile cls (drop (length lit) (c # cs)) \<noteq> []
      then Some (takeWhile cls (drop (length lit) (c # cs)))
      else capture_after lit cls cs)"

definition digit_or_underscore :: "char \<Rightarrow> bool" where
  "digit_or_underscore c = (is_digit c \<or> c = CHR ''_'')"

definition digit_or_dot :: "char \<Rightarrow> bool" where
  "digit_or_dot c = (is_digit c \<or> c = CHR ''.'')"

definition detectOS :: "string \<Rightarrow> string option" where
  "detectOS ua =
     (if includes_str ua ''Windows NT 11'' then Some ''Windows 11''
      else if includes_str ua ''Windows NT 10'' then Some ''Windows 10''
      else if includes_str ua ''Mac OS X'' then
        (case capture_after ''Mac OS X '' digit_or_underscore ua of
           Some v \<Rightarrow> Some (''macOS '' @ map (\<lambda>c. if c = CHR ''_'' then CHR ''.'' else c) v)
         | None \<Rightarrow> Some ''macOS'')
      else if includes_str ua ''Linux'' then Some ''Linux''
      else if includes_str ua ''Android'' then
        (case capture_after ''Android '' digit_or_dot ua of
           Some v \<Rightarrow> Some (''Android '' @ v)
         | None \<Rightarrow> Some ''Android'')
      else if includes_str ua ''iPhone'' \<or> includes_str ua ''iPad'' then Some ''iOS''
      else None)"

text \<open>\<^verbatim>\<open>`Name ${v ? v[1].split('.')[0] : ''}`.trim()\<close>\<close>

definition with_major :: "string \<Rightarrow> string \<Rightarrow> string \<Rightarrow> string" where
  "with_major name marker ua =
     trim (name @ '' '' @
       (case capture_after marker digit_or_dot ua of
          Some v \<Rightarrow> takeWhile (\<lambda>c. c \<noteq> CHR ''.'') v
        | None \<Rightarrow> []))"

definition detectBrowser :: "string \<Rightarrow> string option" where
  "detectBrowser ua =
     (if includes_str ua ''Edg/'' then Some (with_major ''Edge'' ''Edg/'' ua)
      else if includes_str ua ''OPR/'' then Some (with_major ''Opera'' ''OPR/'' ua)
      else if includes_str ua ''Chrome/'' then Some (with_major ''Chrome'' ''Chrome/'' ua)
      else if includes_str ua ''Firefox/'' then Some (with_major ''Firefox'' ''Firefox/'' ua)
      else if includes_str ua ''Safari/'' then Some ''Safari''
      else None)"

text \<open>
  \<^verbatim>\<open>buildFieldMeta\<close>. The user agent and the label \<^verbatim>\<open>getNearbyLabel\<close> finds in the
  document are arguments.
\<close>

definition first_truthy :: "string option list \<Rightarrow> string \<Rightarrow> string" where
  "first_truthy xs d = foldr or_else xs d"

definition device_candidate :: "string \<Rightarrow> rat \<Rightarrow> candidate" where
  "device_candidate v conf = \<lparr>c_value = v, c_source = ''Your device'', c_confidence = conf\<rparr>"

definition os_candidates :: "string \<Rightarrow> string \<Rightarrow> candidate list" where
  "os_candidates type ua =
     (if type = ''os'' then
        (case detectOS ua of
           Some os \<Rightarrow> if os \<noteq> [] then [device_candidate os 1] else []
         | None \<Rightarrow> [])
      else [])"

definition browser_candidates :: "string \<Rightarrow> string \<Rightarrow> candidate list" where
  "browser_candidates type ua =
     (if type = ''browser'' then
        (case detectBrowser ua of
           Some browser \<Rightarrow> if browser \<noteq> [] then [device_candidate browser 1] else []
         | None \<Rightarrow> [])
      else [])"

definition issue_candidates :: "string \<Rightarrow> string \<Rightarrow> candidate list" where
  "issue_candidates type ua =
     (if type = ''issue_description'' then
        (case (detectOS ua, detectBrowser ua) of
           (Some os, Some browser) \<Rightarrow>
             if os \<noteq> [] \<and> browser \<noteq> []
             then [device_candidate (os @ '' / '' @ browser) (9 / 10)] else []
         | _ \<Rightarrow> [])
      else [])"

definition buildFieldMeta :: "string \<Rightarrow> string option \<Rightarrow> element \<Rightarrow> fieldMeta option" where
  "buildFieldMeta ua nearbyLabel el =
     (case classifyField (Some el) of
        None \<Rightarrow> None
      | Some type \<Rightarrow>
          (let local = os_candidates type ua @ browser_candidates type ua
                       @ issue_candidates type ua
           in Some \<lparr>fieldType = type,
                    fieldLabel = first_truthy
                      [nearbyLabel, el_placeholder el, el_name el, el_id el] type,
                    isFormFill = (local \<noteq> []),
                    candidates = local\<rparr>))"

subsection \<open>Debounced requests and their completion\<close>

text \<open>
  The script's state for one focused field: the field's live value
  (\<^verbatim>\<open>getInputValue(input)\<close>), the script's variables, the overlay, and the values for
  which a request has been sent.
\<close>

datatype overlay = Hidden | Loading | Showing suggestion "json option" bool

record script_state =
  field_value :: string
  lastInputValue :: string
  debounceTimer :: "string option"
  currentSuggestions :: "suggestion list"
  activeSuggestionIndex :: nat
  shown :: overlay
  sent :: "string list"

definition initial_state :: script_state where
  "initial_state =
     \<lparr>field_value = [], lastInputValue = [], debounceTimer = None, currentSuggestions = [],
      activeSuggestionIndex = 0, shown = Hidden, sent = []\<rparr>"

definition hide_and_clear :: "script_state \<Rightarrow> script_state" where
  "hide_and_clear st = st\<lparr>shown := Hidden, currentSuggestions := []\<rparr>"

text \<open>\<^verbatim>\<open>inputHandler\<close> with \<^verbatim>\<open>debouncedGenerateSuggestions\<close>, for the field that has the focus.\<close>

definition inputHandler :: "script_state \<Rightarrow> script_state" where
  "inputHandler st =
     (let v = field_value st in
      if v \<noteq> lastInputValue st \<and> length (trim v) \<ge> 1
      then st\<lparr>lastInputValue := v, shown := Loading, debounceTimer := Some v\<rparr>
      else if length (trim v) = 0 then hide_and_clear st
      else st)"

text \<open>
  The part of \<^verbatim>\<open>generateSuggestions(input, value)\<close> after the \<^verbatim>\<open>await\<close>: \<open>answer\<close> is what
  \<^verbatim>\<open>sendMessage\<close> resolved to (\<open>None\<close> for no response) or the error it rejected with.
\<close>

definition on_completion :: "string \<Rightarrow> error + response option \<Rightarrow> script_state \<Rightarrow> script_state" where
  "on_completion v answer st =
     (case answer of
        Inl e \<Rightarrow> hide_and_clear st
      | Inr resp \<Rightarrow>
          if field_value st \<noteq> v then st
          else
            (case resp of
               None \<Rightarrow> hide_and_clear st
             | Some r \<Rightarrow>
                 if rs_success r then
                   (case rs_suggestions r of
                      [] \<Rightarrow> hide_and_clear st
                    | s # rest \<Rightarrow>
                        st\<lparr>currentSuggestions := s # rest, activeSuggestionIndex := 0,
                           shown := Showing s (rs_reason r) (rs_isFormFill r)\<rparr>)
                 else hide_and_clear st))"

datatype script_event =
    Edit string
  | TimerFires
  | Completes string "error + response option"

definition script_step :: "script_event \<Rightarrow> script_state \<Rightarrow> script_state" where
  "script_step ev st =
     (case ev of
        Edit v \<Rightarrow> inputHandler (st\<lparr>field_value := v\<rparr>)
      | TimerFires \<Rightarrow>
          (case debounceTimer st of
             None \<Rightarrow> st
           | Some v \<Rightarrow> st\<lparr>debounceTimer := None, sent := sent st @ [v]\<rparr>)
      | Completes v answer \<Rightarrow> on_completion v answer st)"

definition run_script :: "script_event list \<Rightarrow> script_state" where
  "run_script events = fold script_step events initial_state"


section \<open>Example inputs\<close>

text \<open>Concrete requests, hosts and answers, on which the theorems below are evaluated.\<close>

definition example_page :: history_item where
  "example_page =
     \<lparr>hi_url = Some ''https://example.org/page'', hi_title = Some ''Example page'',
      hi_visitCount = Some 3, hi_lastVisitTime = Some 1000\<rparr>"

definition example_tabs :: "tab list" where
  "example_tabs =
     [\<lparr>tab_id = Some 1, tab_url = Some ''https://docs.python.org/3/'', tab_title = Some ''Python docs''\<rparr>,
      \<lparr>tab_id = Some 2, tab_url = Some ''https://mybank.example/Login'', tab_title = Some ''My bank''\<rparr>,
      \<lparr>tab_id = Some 3, tab_url = Some ''https://example.org/a'', tab_title = None\<rparr>]"

definition pin_platform :: field_descriptor where
  "pin_platform =
     \<lparr>fd_name = Some ''Platform-PIN'', fd_id = None, fd_placeholder = None,
      fd_autocomplete = None, fd_label = Some ''Your platform'', fd_type = Some ''text''\<rparr>"

definition phone_os :: field_descriptor where
  "phone_os =
     \<lparr>fd_name = Some ''os'', fd_id = None, fd_placeholder = None,
      fd_autocomplete = None, fd_label = None, fd_type = Some ''tel''\<rparr>"

definition os_field :: field_descriptor where
  "os_field =
     \<lparr>fd_name = Some ''os_field'', fd_id = None, fd_placeholder = None,
      fd_autocomplete = None, fd_label = None, fd_type = Some ''text''\<rparr>"

definition always_429 :: "nat \<Rightarrow> http_request \<Rightarrow> error + http_response" where
  "always_429 k rq = Inr \<lparr>status = 429, retry_after = (if k = 0 then Some ''7'' else None),
                          body = Inr (JObj [])\<rparr>"

definition example_entries :: "json list" where
  "example_entries =
     [JObj [(''text'', JStr ''  how does asyncio schedule tasks  ''),
            (''derivation'', JStr ''session'')],
      JStr ''{}'',
      JStr ''[[{}]]'',
      JObj [(''text'', JStr ''Reason: because'')],
      JStr ''python asyncio tutorial'',
      JNum ''42'',
      JStr ''asyncio versus threads'',
      JStr ''one entry too many'']"

definition example_answer :: json where
  "example_answer = JObj [(''reason'', JStr ''ok''), (''suggestions'', JArr example_entries)]"

definition quiet_host :: host where
  "quiet_host =
     \<lparr>h_now = 10,
      h_extensionEnabled = Inr None,
      h_stored_config = Inr \<lparr>groqApiKey = Some ''gsk_key'', enableHistoryTracking = False\<rparr>,
      h_window_tabs = Inr [],
      h_active_tab = Inr [],
      h_history_search = (\<lambda>q. Inr []),
      h_active_input = Inr None,
      h_intent = Inr None,
      h_recordQuery = (\<lambda>q ss. Inr ()),
      h_fetch = (\<lambda>k rq. Inr \<lparr>status = 200, retry_after = None, body = Inr (JObj [])\<rparr>),
      h_json_parse = (\<lambda>s. None)\<rparr>"

definition ready_cm :: config_manager where
  "ready_cm =
     \<lparr>cm_config = Some \<lparr>groqApiKey = Some ''gsk_key'', enableHistoryTracking = False\<rparr>,
      cm_initialized = True\<rparr>"

definition unnamed_field_request :: request_data where
  "unnamed_field_request =
     \<lparr>d_active_input_text = Some ''my password is hunter2'', d_fieldName = Some [],
      d_fieldMeta = None\<rparr>"

definition named_field_request :: request_data where
  "named_field_request =
     \<lparr>d_active_input_text = Some ''my password is hunter2'', d_fieldName = Some ''notes'',
      d_fieldMeta = None\<rparr>"

definition windows_meta :: fieldMeta where
  "windows_meta =
     \<lparr>fieldType = ''os'', fieldLabel = ''Operating system'', isFormFill = True,
      candidates = [\<lparr>c_value = ''Windows 10'', c_source = ''Your device'', c_confidence = 1\<rparr>]\<rparr>"

definition windows_request :: request_context where
  "windows_request =
     \<lparr>active_input_text = ''Win'', active_tabs = [], recent_history = [],
      top_visited_titles = [], ctx_fieldMeta = Some windows_meta, sessionIntent = None\<rparr>"

definition no_key_cm :: config_manager where
  "no_key_cm =
     \<lparr>cm_config = Some \<lparr>groqApiKey = None, enableHistoryTracking = False\<rparr>,
      cm_initialized = True\<rparr>"

definition platform_element :: element where
  "platform_element =
     \<lparr>el_name = Some ''platform'', el_id = Some [], el_placeholder = Some [],
      el_autocomplete_attr = None, el_aria_label = None, el_type = Some ''text'',
      el_autocomplete = Some []\<rparr>"

definition windows_10_agent :: string where
  "windows_10_agent = ''Mozilla/5.0 (Windows NT 10.0; Win64; x64) Chrome/120.0.0.0''"

definition mixed_agent :: string where
  "mixed_agent = ''Mozilla/5.0 (Windows NT 11.0; like Windows NT 10.0) Chrome/120.0.0.0''"

definition plain_request :: request_data where
  "plain_request =
     \<lparr>d_active_input_text = Some ''python async'', d_fieldName = Some ''q'',
      d_fieldMeta = None\<rparr>"

definition apple_response :: response where
  "apple_response =
     \<lparr>rs_success = True, rs_reason = Some (JStr ''ok''),
      rs_suggestions = [\<lparr>s_text = ''apple pie recipe'', s_derivation = ''Session: baking''\<rparr>],
      rs_isFormFill = False, rs_error = None\<rparr>"

definition apology_fetch :: "nat \<Rightarrow> http_request \<Rightarrow> error + http_response" where
  "apology_fetch k rq =
     Inr \<lparr>status = 200, retry_after = None,
          body = Inr (JObj [(''choices'',
                   JArr [JObj [(''message'',
                     JObj [(''content'', JStr ''Sorry, I cannot help with that.'')])]])])\<rparr>"

definition plain_context :: request_context where
  "plain_context =
     \<lparr>active_input_text = ''python async'', active_tabs = [], recent_history = [],
      top_visited_titles = [], ctx_fieldMeta = None, sessionIntent = None\<rparr>"

definition tel_platform :: element where
  "tel_platform =
     \<lparr>el_name = Some ''platform'', el_id = Some [], el_placeholder = Some [],
      el_autocomplete_attr = None, el_aria_label = None, el_type = Some ''tel'',
      el_autocomplete = Some []\<rparr>"

definition secret_platform :: element where
  "secret_platform =
     \<lparr>el_name = Some ''secret_platform'', el_id = Some [], el_placeholder = Some [],
      el_autocomplete_attr = None, el_aria_label = None, el_type = Some ''text'',
      el_autocomplete = Some []\<rparr>"

section \<open>Properties of the rate limiter\<close>

lemma run_checks_Nil: "run_checks [] = (new_RateLimiter, [], [])"
  by (simp add: run_checks_def)

lemma run_checks_snoc: "run_checks (ts @ [t]) = check_step t (run_checks ts)"
  by (simp add: run_checks_def)

lemma checkLimit_windowMs: "windowMs (snd (checkLimit now rl)) = windowMs rl"
  by (simp add: checkLimit_def Let_def)

lemma limiter_after_snoc:
  "limiter_after (ts @ [t]) = snd (checkLimit t (limiter_after ts))"
  by (simp add: limiter_after_def run_checks_snoc check_step_def split: prod.splits)

lemma answers_snoc:
  "answers (ts @ [t]) = answers ts @ [fst (checkLimit t (limiter_after ts))]"
  by (simp add: answers_def limiter_after_def run_checks_snoc check_step_def split: prod.splits)

lemma admitted_snoc:
  "admitted (ts @ [t]) =
     (if fst (checkLimit t (limiter_after ts)) then admitted ts @ [t] else admitted ts)"
  by (simp add: admitted_def limiter_after_def run_checks_snoc check_step_def split: prod.splits)

lemma limiter_after_windowMs: "windowMs (limiter_after ts) = 60000"
proof (induction ts rule: rev_induct)
  case Nil
  show ?case by (simp add: limiter_after_def run_checks_Nil new_RateLimiter_def)
next
  case (snoc t ts)
  then show ?case by (simp add: limiter_after_snoc checkLimit_windowMs)
qed

lemma admitted_subset: "set (admitted ts) \<subseteq> set ts"
proof (induction ts rule: rev_induct)
  case Nil
  show ?case by (simp add: admitted_def run_checks_Nil)
next
  case (snoc t ts)
  then show ?case by (auto simp: admitted_snoc)
qed

lemma requests_le_cap: "length (requests (limiter_after ts)) \<le> 10"
proof (induction ts rule: rev_induct)
  case Nil
  show ?case by (simp add: limiter_after_def run_checks_Nil new_RateLimiter_def)
next
  case (snoc t ts)
  have "length (filter P (requests (limiter_after ts))) \<le> 10" for P
    using snoc.IH by (meson le_trans length_filter_le)
  then show ?case
    by (simp add: limiter_after_snoc checkLimit_def Let_def maxRequests_def not_le)
qed

lemma requests_live:
  assumes "sorted ts" and "\<forall>t\<in>set ts. t \<le> u"
  shows "filter (\<lambda>a. u - a < 60000) (admitted ts)
       = filter (\<lambda>a. u - a < 60000) (requests (limiter_after ts))"
  using assms
proof (induction ts arbitrary: u rule: rev_induct)
  case Nil
  show ?case
    by (simp add: admitted_def limiter_after_def run_checks_Nil new_RateLimiter_def)
next
  case (snoc t ts)
  from snoc.prems have srt: "sorted ts" and tu: "t \<le> u" and le: "\<forall>x\<in>set ts. x \<le> u"
    by (auto simp: sorted_append)
  have IH: "filter (\<lambda>a. u - a < 60000) (admitted ts)
          = filter (\<lambda>a. u - a < 60000) (requests (limiter_after ts))"
    using snoc.IH [OF srt le] .
  have imp: "(t - a < 60000 \<and> u - a < 60000) = (u - a < 60000)" for a
    using tu by auto
  show ?case
    by (simp add: admitted_snoc limiter_after_snoc checkLimit_def Let_def
        limiter_after_windowMs IH imp)
qed

lemma window_count:
  assumes "sorted ts"
  shows "length (filter (\<lambda>a. a \<le> u \<and> u - a < 60000) (admitted ts)) \<le> 10"
  using assms
proof (induction ts rule: rev_induct)
  case Nil
  show ?case by (simp add: admitted_def run_checks_Nil)
next
  case (snoc t ts)
  from snoc.prems have srt: "sorted ts" and le: "\<forall>x\<in>set ts. x \<le> t"
    by (auto simp: sorted_append)
  note IH = snoc.IH [OF srt]
  show ?case
  proof (cases "t \<le> u")
    case False
    then show ?thesis using IH by (simp add: admitted_snoc)
  next
    case True
    have all: "\<forall>x\<in>set (ts @ [t]). x \<le> u" using le True by auto
    have "\<forall>a\<in>set (admitted (ts @ [t])). a \<le> u"
      using admitted_subset [of "ts @ [t]"] all by blast
    then have "filter (\<lambda>a. a \<le> u \<and> u - a < 60000) (admitted (ts @ [t]))
             = filter (\<lambda>a. u - a < 60000) (admitted (ts @ [t]))"
      by (intro filter_cong) auto
    also have "\<dots> = filter (\<lambda>a. u - a < 60000) (requests (limiter_after (ts @ [t])))"
      using requests_live [OF snoc.prems all] .
    finally show ?thesis
      using requests_le_cap [of "ts @ [t]"]
      by (metis le_trans length_filter_le)
  qed
qed


lemma check_answer_count:
  assumes "sorted (ts @ [t])"
  shows "fst (checkLimit t (limiter_after ts))
       = (length (filter (\<lambda>a. a \<le> t \<and> t - a < 60000) (admitted ts)) < 10)"
proof -
  from assms have srt: "sorted ts" and le: "\<forall>x\<in>set ts. x \<le> t"
    by (auto simp: sorted_append)
  have "\<forall>a\<in>set (admitted ts). a \<le> t"
    using admitted_subset [of ts] le by blast
  then have "filter (\<lambda>a. a \<le> t \<and> t - a < 60000) (admitted ts)
           = filter (\<lambda>a. t - a < 60000) (admitted ts)"
    by (intro filter_cong) auto
  also have "\<dots> = filter (\<lambda>a. t - a < 60000) (requests (limiter_after ts))"
    using requests_live [OF srt le] .
  finally show ?thesis
    by (simp add: checkLimit_def Let_def maxRequests_def limiter_after_windowMs not_le)
qed

lemma filter_all_length: "(length (filter P xs) = length xs) = (\<forall>x\<in>set xs. P x)"
  by (induction xs) (auto simp: le_imp_less_Suc [OF length_filter_le] less_imp_neq)

lemma full_window_check:
  assumes w: "windowMs rl = 60000" and full: "length (requests rl) = 10"
  shows "fst (checkLimit now rl) = (60000 \<le> now - Min (set (requests rl)))"
proof -
  let ?P = "\<lambda>time. now - time < 60000"
  have ne: "requests rl \<noteq> []" using full by auto
  have "length (filter ?P (requests rl)) \<le> 10"
    using full length_filter_le [of ?P "requests rl"] by simp
  then have "(10 \<le> length (filter ?P (requests rl))) = (length (filter ?P (requests rl)) = length (requests rl))"
    using full by auto
  also have "\<dots> = (\<forall>x\<in>set (requests rl). ?P x)"
    by (rule filter_all_length)
  also have "\<dots> = (now - Min (set (requests rl)) < 60000)"
  proof
    assume "\<forall>x\<in>set (requests rl). ?P x"
    moreover have "Min (set (requests rl)) \<in> set (requests rl)"
      using ne by (intro Min_in) auto
    ultimately show "now - Min (set (requests rl)) < 60000" by blast
  next
    assume a: "now - Min (set (requests rl)) < 60000"
    show "\<forall>x\<in>set (requests rl). ?P x"
    proof
      fix x assume "x \<in> set (requests rl)"
      then have "Min (set (requests rl)) \<le> x" by (intro Min_le) auto
      with a show "?P x" by linarith
    qed
  qed
  finally show ?thesis
    by (auto simp: checkLimit_def Let_def maxRequests_def w)
qed

lemma rejected_state:
  assumes "\<not> fst (checkLimit now rl)" and "length (requests rl) \<le> 10"
  shows "snd (checkLimit now rl) = rl \<and> length (requests rl) = 10"
proof -
  let ?P = "\<lambda>time. now - time < windowMs rl"
  from assms(1) have "10 \<le> length (filter ?P (requests rl))"
    by (simp add: checkLimit_def Let_def maxRequests_def split: if_splits)
  with assms(2) length_filter_le [of ?P "requests rl"]
  have len: "length (filter ?P (requests rl)) = length (requests rl)" and ten: "length (requests rl) = 10"
    by linarith+
  from len have "filter ?P (requests rl) = requests rl"
    by (simp add: filter_all_length filter_id_conv)
  then show ?thesis using ten
    by (simp add: checkLimit_def Let_def maxRequests_def)
qed

lemma time_until_reset:
  assumes "requests rl \<noteq> []"
  shows "getTimeUntilReset now rl = max 0 (Min (set (requests rl)) + windowMs rl - now)"
proof -
  from assms obtain r rs where eq: "requests rl = r # rs" by (cases "requests rl") auto
  have "fold min rs r = Min (set (requests rl))"
    unfolding eq by (simp only: Min.set_eq_fold)
  then show ?thesis by (simp add: getTimeUntilReset_def eq Let_def)
qed

lemma burst_state:
  assumes "\<forall>a\<in>set ts. \<forall>b\<in>set ts. b - a < 60000"
  shows "requests (limiter_after ts) = take 10 ts
       \<and> answers ts = replicate (min 10 (length ts)) True @ replicate (length ts - 10) False"
  using assms
proof (induction ts rule: rev_induct)
  case Nil
  show ?case
    by (simp add: limiter_after_def answers_def run_checks_Nil new_RateLimiter_def)
next
  case (snoc t ts)
  from snoc.prems have sub: "\<forall>a\<in>set ts. \<forall>b\<in>set ts. b - a < 60000"
    and near: "\<forall>a\<in>set ts. t - a < 60000" by auto
  from snoc.IH [OF sub] have req: "requests (limiter_after ts) = take 10 ts"
    and ans: "answers ts = replicate (min 10 (length ts)) True @ replicate (length ts - 10) False"
    by auto
  have "\<forall>a\<in>set (take 10 ts). t - a < 60000"
    using near by (meson in_set_takeD)
  then have keep: "filter (\<lambda>time. t - time < 60000) (take 10 ts) = take 10 ts"
    by (simp add: filter_id_conv)
  show ?case
  proof (cases "10 \<le> length ts")
    case True
    then have "checkLimit t (limiter_after ts) = (False, limiter_after ts)"
      by (simp add: checkLimit_def Let_def maxRequests_def limiter_after_windowMs req keep)
    moreover have "length ts - 9 = Suc (length ts - 10)" using True by simp
    ultimately show ?thesis using True
      by (simp add: limiter_after_snoc answers_snoc req ans replicate_append_same)
  next
    case False
    have keep': "filter (\<lambda>time. t - time < 60000) ts = ts"
      using near by (simp add: filter_id_conv)
    from False have ck: "checkLimit t (limiter_after ts)
             = (True, (limiter_after ts)\<lparr>requests := take 10 ts @ [t]\<rparr>)"
      by (simp add: checkLimit_def Let_def maxRequests_def limiter_after_windowMs req keep')
    have m1: "min 10 (length ts) = length ts" and d1: "length ts - 10 = 0"
      and m2: "min 10 (length (ts @ [t])) = Suc (length ts)"
      and d2: "length (ts @ [t]) - 10 = 0"
      using False by auto
    have "answers (ts @ [t]) = replicate (length ts) True @ [True]"
      by (simp add: answers_snoc ans m1 d1 ck)
    also have "\<dots> = replicate (Suc (length ts)) True"
      by (simp add: replicate_append_same)
    finally have "answers (ts @ [t])
        = replicate (min 10 (length (ts @ [t]))) True @ replicate (length (ts @ [t]) - 10) False"
      unfolding m2 d2 by simp
    moreover have "requests (limiter_after (ts @ [t])) = take 10 (ts @ [t])"
      using False by (simp add: limiter_after_snoc ck)
    ultimately show ?thesis by blast
  qed
qed

text \<open>
  Claim C5. Checks are made at non-decreasing clock readings, starting from a fresh
  limiter (cap 10, window 60000 ms). Then
  \<^item> every window of 60000 ms holds at most 10 admitted checks;
  \<^item> a check is admitted exactly when fewer than 10 admitted checks lie in the window that
    ends at it, so a rejected check finds exactly 10 there;
  \<^item> a rejected check leaves the limiter as it was, and from then on a check is rejected
    exactly as long as the earliest recorded admission is younger than 60000 ms; the time
    to reset reported is the time until that admission ages out;
  \<^item> when all checks fall within one window, the first 10 are admitted and every later one
    is rejected.
\<close>

theorem rate_limiter_sliding_window:
  assumes "sorted (ts @ [t])"
  shows "(\<forall>u. length (filter (\<lambda>a. a \<le> u \<and> u - a < 60000) (admitted (ts @ [t]))) \<le> 10)
       \<and> fst (checkLimit t (limiter_after ts))
           = (length (filter (\<lambda>a. a \<le> t \<and> t - a < 60000) (admitted ts)) < 10)
       \<and> (\<not> fst (checkLimit t (limiter_after ts)) \<longrightarrow>
            limiter_after (ts @ [t]) = limiter_after ts
          \<and> (\<forall>now. fst (checkLimit now (limiter_after (ts @ [t])))
                    = (60000 \<le> now - Min (set (requests (limiter_after ts)))))
          \<and> (\<forall>now. getTimeUntilReset now (limiter_after (ts @ [t]))
                    = max 0 (Min (set (requests (limiter_after ts))) + 60000 - now)))
       \<and> ((\<forall>a\<in>set (ts @ [t]). \<forall>b\<in>set (ts @ [t]). b - a < 60000) \<longrightarrow>
            answers (ts @ [t])
              = replicate (min 10 (length (ts @ [t]))) True @ replicate (length (ts @ [t]) - 10) False)"
proof (intro conjI impI allI)
  fix u
  show "length (filter (\<lambda>a. a \<le> u \<and> u - a < 60000) (admitted (ts @ [t]))) \<le> 10"
    using window_count [OF assms] .
next
  show "fst (checkLimit t (limiter_after ts))
      = (length (filter (\<lambda>a. a \<le> t \<and> t - a < 60000) (admitted ts)) < 10)"
    using check_answer_count [OF assms] .
next
  assume rej: "\<not> fst (checkLimit t (limiter_after ts))"
  from rejected_state [OF rej requests_le_cap]
  show "limiter_after (ts @ [t]) = limiter_after ts"
    by (simp add: limiter_after_snoc)
next
  fix now
  assume rej: "\<not> fst (checkLimit t (limiter_after ts))"
  from rejected_state [OF rej requests_le_cap]
  have same: "limiter_after (ts @ [t]) = limiter_after ts"
    and full: "length (requests (limiter_after ts)) = 10"
    by (simp_all add: limiter_after_snoc)
  show "fst (checkLimit now (limiter_after (ts @ [t])))
      = (60000 \<le> now - Min (set (requests (limiter_after ts))))"
    unfolding same using full_window_check [OF limiter_after_windowMs full] .
next
  fix now
  assume rej: "\<not> fst (checkLimit t (limiter_after ts))"
  from rejected_state [OF rej requests_le_cap]
  have same: "limiter_after (ts @ [t]) = limiter_after ts"
    and full: "length (requests (limiter_after ts)) = 10"
    by (simp_all add: limiter_after_snoc)
  from full have ne: "requests (limiter_after ts) \<noteq> []" by auto
  show "getTimeUntilReset now (limiter_after (ts @ [t]))
      = max 0 (Min (set (requests (limiter_after ts))) + 60000 - now)"
    unfolding same using time_until_reset [OF ne, of now]
    by (simp add: limiter_after_windowMs)
next
  assume "\<forall>a\<in>set (ts @ [t]). \<forall>b\<in>set (ts @ [t]). b - a < 60000"
  from burst_state [OF this]
  show "answers (ts @ [t])
      = replicate (min 10 (length (ts @ [t]))) True @ replicate (length (ts @ [t]) - 10) False"
    by simp
qed

theorem rate_limiter_sliding_window_witness:
  "sorted ([0, 1, 2, 3, 4, 5, 6, 7, 8, 9] @ [10 :: int])
   \<and> \<not> fst (checkLimit 10 (limiter_after [0, 1, 2, 3, 4, 5, 6, 7, 8, 9]))
   \<and> answers ([0, 1, 2, 3, 4, 5, 6, 7, 8, 9] @ [10])
       = [True, True, True, True, True, True, True, True, True, True, False]
   \<and> \<not> fst (checkLimit 59999 (limiter_after ([0, 1, 2, 3, 4, 5, 6, 7, 8, 9] @ [10])))
   \<and> fst (checkLimit 60000 (limiter_after ([0, 1, 2, 3, 4, 5, 6, 7, 8, 9] @ [10])))
   \<and> getTimeUntilReset 10 (limiter_after ([0, 1, 2, 3, 4, 5, 6, 7, 8, 9] @ [10])) = 59990"
proof -
  let ?ts = "[0, 1, 2, 3, 4, 5, 6, 7, 8, 9 :: int]"
  have s: "sorted (?ts @ [10])" by simp
  have req: "requests (limiter_after ?ts) = ?ts"
    by (simp add: limiter_after_def run_checks_def check_step_def checkLimit_def
        new_RateLimiter_def maxRequests_def)
  have w: "windowMs (limiter_after ?ts) = 60000"
    by (simp add: limiter_after_def run_checks_def check_step_def checkLimit_def
        new_RateLimiter_def maxRequests_def)
  have rej: "\<not> fst (checkLimit 10 (limiter_after ?ts))"
    by (simp add: checkLimit_def Let_def req w maxRequests_def)
  have near: "\<forall>a\<in>set (?ts @ [10]). \<forall>b\<in>set (?ts @ [10]). b - a < 60000"
    by simp
  have m: "Min (set ?ts) = 0" by simp
  note main = rate_limiter_sliding_window [OF s]
  from main rej have chk: "fst (checkLimit now (limiter_after (?ts @ [10])))
      = (60000 \<le> now - Min (set (requests (limiter_after ?ts))))" for now
    by blast
  from main rej have rst: "getTimeUntilReset now (limiter_after (?ts @ [10]))
      = max 0 (Min (set (requests (limiter_after ?ts))) + 60000 - now)" for now
    by blast
  from main near have ans: "answers (?ts @ [10])
      = replicate (min 10 (length (?ts @ [10]))) True @ replicate (length (?ts @ [10]) - 10) False"
    by blast
  have rep: "replicate (min 10 (length (?ts @ [10]))) True @ replicate (length (?ts @ [10]) - 10) False
      = [True, True, True, True, True, True, True, True, True, True, False]"
    by code_simp
  show ?thesis
    using s rej
    by (simp only: chk rst ans rep req m) simp
qed

section \<open>Properties of the context collector\<close>

lemma other_tabs_length: "length (other_tabs tabs cur) \<le> 5"
  by (simp add: other_tabs_def)

lemma other_tabs_member:
  assumes "t \<in> set (other_tabs tabs cur)"
  shows "t \<in> set tabs \<and> \<not> is_current_tab cur t \<and> \<not> isFiltered t"
proof -
  from assms have "t \<in> set (filter (\<lambda>t. \<not> is_current_tab cur t \<and> \<not> isFiltered t) tabs)"
    unfolding other_tabs_def by (rule in_set_takeD)
  then show ?thesis by simp
qed

lemma getActiveTabsContext_length: "length (getActiveTabsContext w a) \<le> 5"
  by (simp add: getActiveTabsContext_def Let_def other_tabs_length split: sum.splits)

lemma getTopVisitedTitles_length: "length (getTopVisitedTitles now search) \<le> 5"
  by (simp add: getTopVisitedTitles_def Let_def split: sum.splits)

lemma getRecentHistory_length:
  "length (getRecentHistory now search)
     \<le> (case search \<lparr>q_text = [], q_startTime = now - 7200000, q_maxResults = 15\<rparr> of
           Inl e \<Rightarrow> 0 | Inr history \<Rightarrow> length history)"
  by (simp add: getRecentHistory_def Let_def split: sum.splits)

lemma example_page_useful: "useful_item example_page"
  by code_simp

text \<open>
  Claim C6 as stated fails for the recent-navigation list: \<^verbatim>\<open>getRecentHistory\<close> asks the
  host for at most 15 results (\<^verbatim>\<open>maxResults: 15\<close>) and then only filters and maps what
  it is given. Fed 500 usable history items, it returns 500 entries.
\<close>

theorem recent_history_uncapped:
  "length (getRecentHistory 0 (\<lambda>q. Inr (replicate 500 example_page))) = 500
   \<and> \<not> length (getRecentHistory 0 (\<lambda>q. Inr (replicate 500 example_page))) \<le> 15"
  by (simp add: getRecentHistory_def Let_def example_page_useful)

text \<open>
  Claim C6, amended. Whatever the host supplies, the other-tabs list has at most 5
  entries, each made from a tab of the window that is neither the active tab nor on a
  sensitive domain, and the topic-frequency list has at most 5 entries. The
  recent-navigation list is never longer than the host's answer to a search limited to
  \<^verbatim>\<open>maxResults = 15\<close>; it has at most 15 entries when the host honours that limit.
\<close>

theorem snapshot_caps:
  "length (getActiveTabsContext wtabs atabs) \<le> 5
   \<and> (wtabs = Inr tabs \<and> atabs = Inr act \<longrightarrow>
        (\<exists>sel. getActiveTabsContext wtabs atabs = map tab_entry sel
           \<and> (\<forall>t\<in>set sel. t \<in> set tabs
                  \<and> \<not> is_current_tab (case act of [] \<Rightarrow> None | c # _ \<Rightarrow> Some c) t
                  \<and> \<not> isFiltered t)))
   \<and> length (getTopVisitedTitles now search) \<le> 5
   \<and> length (getRecentHistory now search)
        \<le> (case search \<lparr>q_text = [], q_startTime = now - 7200000, q_maxResults = 15\<rparr> of
              Inl e \<Rightarrow> 0 | Inr history \<Rightarrow> length history)
   \<and> ((\<forall>q history. search q = Inr history \<longrightarrow> length history \<le> q_maxResults q) \<longrightarrow>
        length (getRecentHistory now search) \<le> 15)"
proof (intro conjI impI)
  show "length (getActiveTabsContext wtabs atabs) \<le> 5"
    by (rule getActiveTabsContext_length)
next
  assume h: "wtabs = Inr tabs \<and> atabs = Inr act"
  let ?cur = "case act of [] \<Rightarrow> None | c # _ \<Rightarrow> Some c"
  have "getActiveTabsContext wtabs atabs = map tab_entry (other_tabs tabs ?cur)"
    using h by (simp add: getActiveTabsContext_def)
  moreover have "\<forall>t\<in>set (other_tabs tabs ?cur).
      t \<in> set tabs \<and> \<not> is_current_tab ?cur t \<and> \<not> isFiltered t"
    using other_tabs_member by blast
  ultimately show "\<exists>sel. getActiveTabsContext wtabs atabs = map tab_entry sel
      \<and> (\<forall>t\<in>set sel. t \<in> set tabs \<and> \<not> is_current_tab ?cur t \<and> \<not> isFiltered t)"
    by blast
next
  show "length (getTopVisitedTitles now search) \<le> 5"
    by (rule getTopVisitedTitles_length)
next
  show "length (getRecentHistory now search)
      \<le> (case search \<lparr>q_text = [], q_startTime = now - 7200000, q_maxResults = 15\<rparr> of
            Inl e \<Rightarrow> 0 | Inr history \<Rightarrow> length history)"
    by (rule getRecentHistory_length)
next
  assume honours: "\<forall>q history. search q = Inr history \<longrightarrow> length history \<le> q_maxResults q"
  let ?q = "\<lparr>q_text = [], q_startTime = now - 7200000, q_maxResults = 15\<rparr>"
  show "length (getRecentHistory now search) \<le> 15"
  proof (cases "search ?q")
    case (Inl e)
    then show ?thesis using getRecentHistory_length [of now search] by simp
  next
    case (Inr history)
    with honours have "length history \<le> 15" by fastforce
    then show ?thesis using getRecentHistory_length [of now search] Inr by simp
  qed
qed

theorem snapshot_caps_witness:
  "getActiveTabsContext (Inr example_tabs) (Inr [hd example_tabs])
     = [\<lparr>ti_title = [], ti_url = ''https://example.org/a''\<rparr>]
   \<and> length (getRecentHistory 0 (\<lambda>q. Inr (take (q_maxResults q) (replicate 500 example_page)))) \<le> 15
   \<and> length (getRecentHistory 0 (\<lambda>q. Inr (take (q_maxResults q) (replicate 500 example_page)))) = 15"
proof -
  let ?search = "\<lambda>q. Inr (take (q_maxResults q) (replicate 500 example_page)) :: error + history_item list"
  have honours: "\<forall>q history. ?search q = Inr history \<longrightarrow> length history \<le> q_maxResults q"
    by auto
  from snapshot_caps [of "Inr example_tabs" "Inr [hd example_tabs]" example_tabs "[hd example_tabs]" 0 ?search]
    honours
  have "length (getRecentHistory 0 ?search) \<le> 15" by blast
  moreover have "getActiveTabsContext (Inr example_tabs) (Inr [hd example_tabs])
     = [\<lparr>ti_title = [], ti_url = ''https://example.org/a''\<rparr>]"
    by code_simp
  moreover have "length (getRecentHistory 0 ?search) = 15"
    by (simp add: getRecentHistory_def Let_def example_page_useful)
  ultimately show ?thesis by blast
qed

section \<open>Properties of the field classifiers\<close>

lemma classifyField_rules_not_sensitive:
  "classifyField_rules meta combined \<noteq> Some ''sensitive''"
  by (simp add: classifyField_rules_def)

lemma first_pattern_not_sensitive: "first_pattern combined table \<noteq> Some ''sensitive''"
proof (induction table)
  case Nil
  show ?case by simp
next
  case (Cons entry table)
  then show ?case by (cases entry) simp
qed

lemma FORM_FIELD_PATTERNS_head:
  assumes "map_of FORM_FIELD_PATTERNS ''sensitive'' = Some ks"
  shows "FORM_FIELD_PATTERNS = (''sensitive'', ks) # tl FORM_FIELD_PATTERNS"
  using assms by (simp add: FORM_FIELD_PATTERNS_def)

lemma classifyField_sensitive_first:
  assumes "map_of FORM_FIELD_PATTERNS ''sensitive'' = Some ks"
    and "k \<in> set ks"
    and "includes_str (element_text el) (underscored k)"
  shows "classifyField (Some el) = None"
proof -
  from assms(2,3) have "list_ex (\<lambda>k. includes_str (element_text el) (underscored k)) ks"
    by (auto simp: list_ex_iff)
  then have "first_pattern (element_text el) ((''sensitive'', ks) # tl FORM_FIELD_PATTERNS) = None"
    by simp
  then show ?thesis
    using FORM_FIELD_PATTERNS_head [OF assms(1)] by (simp add: classifyField_def)
qed

lemma classifyField_others:
  assumes "map_of FORM_FIELD_PATTERNS ''sensitive'' = Some ks"
    and "\<not> (\<exists>k\<in>set ks. includes_str (element_text el) (underscored k))"
  shows "classifyField (Some el) = first_pattern (element_text el) (tl FORM_FIELD_PATTERNS)"
proof -
  from assms(2) have "\<not> list_ex (\<lambda>k. includes_str (element_text el) (underscored k)) ks"
    by (simp add: list_ex_iff)
  then have "first_pattern (element_text el) ((''sensitive'', ks) # tl FORM_FIELD_PATTERNS)
      = first_pattern (element_text el) (tl FORM_FIELD_PATTERNS)"
    by simp
  then show ?thesis
    using FORM_FIELD_PATTERNS_head [OF assms(1)] by (simp add: classifyField_def)
qed

lemma classifyField_not_sensitive: "classifyField element \<noteq> Some ''sensitive''"
  by (cases element) (simp_all add: classifyField_def first_pattern_not_sensitive)

text \<open>
  Claim C2 as stated fails for the classifier the content script runs. Its
  \<^verbatim>\<open>classifyField\<close> walks \<^verbatim>\<open>FORM_FIELD_PATTERNS\<close> and answers a match of the sensitive
  entry with \<^verbatim>\<open>null\<close> (\<^verbatim>\<open>return type === 'sensitive' ? null : type\<close>), never with
  \<^verbatim>\<open>sensitive\<close>, and it has no rule for the input type: a field of type \<^verbatim>\<open>tel\<close> named
  \<^verbatim>\<open>platform\<close> is classified \<^verbatim>\<open>os\<close>, and a field named \<^verbatim>\<open>secret_platform\<close>, whose text
  contains the sensitive keyword \<^verbatim>\<open>secret\<close>, is classified \<^verbatim>\<open>null\<close>.
\<close>

theorem inline_classifier_no_sensitive_result:
  "el_type tel_platform = Some ''tel''
   \<and> classifyField (Some tel_platform) = Some ''os''
   \<and> includes_str (element_text secret_platform) ''secret''
   \<and> classifyField (Some secret_platform) = None
   \<and> classifyField (Some secret_platform) \<noteq> Some ''sensitive''"
  by code_simp

text \<open>
  Claim C2, amended. Each of the two field classifiers evaluates its sensitivity check
  before all other category rules and short-circuits.
  \<^item> \<^verbatim>\<open>FormDetector._classifyField\<close>: when a keyword of its sensitive list occurs in the
    lower-cased, space-joined descriptor text, or the input type is \<^verbatim>\<open>password\<close> or
    \<^verbatim>\<open>tel\<close>, the result is \<^verbatim>\<open>sensitive\<close>, whatever the other rules would say of the same
    text; the other rules never yield \<^verbatim>\<open>sensitive\<close>, and they alone decide whenever the
    check does not fire.
  \<^item> The content script's \<^verbatim>\<open>classifyField\<close>: when a keyword of the sensitive entry of
    \<^verbatim>\<open>FORM_FIELD_PATTERNS\<close> occurs in the lower-cased element text (hyphens and white
    space turned into underscores in both), the result is \<^verbatim>\<open>null\<close>, whatever the other
    entries would say; otherwise the other entries alone decide. It never yields
    \<^verbatim>\<open>sensitive\<close>, and the input type counts only as part of the element text.
\<close>

theorem sensitive_check_first:
  "((\<exists>k\<in>set sensitive_keywords. includes_str (combined_text meta) k)
      \<or> fd_type meta = Some ''password'' \<or> fd_type meta = Some ''tel''
     \<longrightarrow> classifyField_detector meta = Some ''sensitive'')
   \<and> (classifyField_detector meta = Some ''sensitive''
     \<longrightarrow> (\<exists>k\<in>set sensitive_keywords. includes_str (combined_text meta) k)
      \<or> fd_type meta = Some ''password'' \<or> fd_type meta = Some ''tel'')
   \<and> (classifyField_detector meta \<noteq> Some ''sensitive''
     \<longrightarrow> classifyField_detector meta = classifyField_rules meta (combined_text meta))
   \<and> (map_of FORM_FIELD_PATTERNS ''sensitive'' = Some ks
        \<and> (\<exists>k\<in>set ks. includes_str (element_text el) (underscored k))
     \<longrightarrow> classifyField (Some el) = None)
   \<and> (map_of FORM_FIELD_PATTERNS ''sensitive'' = Some ks
        \<and> \<not> (\<exists>k\<in>set ks. includes_str (element_text el) (underscored k))
     \<longrightarrow> classifyField (Some el) = first_pattern (element_text el) (tl FORM_FIELD_PATTERNS))
   \<and> classifyField (Some el) \<noteq> Some ''sensitive''
   \<and> (element_text el = element_text el' \<longrightarrow> classifyField (Some el) = classifyField (Some el'))"
proof (intro conjI impI)
  assume "(\<exists>k\<in>set sensitive_keywords. includes_str (combined_text meta) k)
      \<or> fd_type meta = Some ''password'' \<or> fd_type meta = Some ''tel''"
  then show "classifyField_detector meta = Some ''sensitive''"
    by (auto simp: classifyField_detector_def Let_def list_ex_iff)
next
  assume s: "classifyField_detector meta = Some ''sensitive''"
  show "(\<exists>k\<in>set sensitive_keywords. includes_str (combined_text meta) k)
      \<or> fd_type meta = Some ''password'' \<or> fd_type meta = Some ''tel''"
  proof (rule ccontr)
    assume "\<not> ?thesis"
    then have "classifyField_detector meta = classifyField_rules meta (combined_text meta)"
      by (auto simp: classifyField_detector_def Let_def list_ex_iff)
    with s classifyField_rules_not_sensitive show False by metis
  qed
next
  assume "classifyField_detector meta \<noteq> Some ''sensitive''"
  then show "classifyField_detector meta = classifyField_rules meta (combined_text meta)"
    by (auto simp: classifyField_detector_def Let_def split: if_splits)
next
  assume "map_of FORM_FIELD_PATTERNS ''sensitive'' = Some ks
        \<and> (\<exists>k\<in>set ks. includes_str (element_text el) (underscored k))"
  then show "classifyField (Some el) = None"
    using classifyField_sensitive_first by blast
next
  assume "map_of FORM_FIELD_PATTERNS ''sensitive'' = Some ks
        \<and> \<not> (\<exists>k\<in>set ks. includes_str (element_text el) (underscored k))"
  then show "classifyField (Some el) = first_pattern (element_text el) (tl FORM_FIELD_PATTERNS)"
    using classifyField_others by blast
next
  show "classifyField (Some el) \<noteq> Some ''sensitive''"
    by (rule classifyField_not_sensitive)
next
  assume "element_text el = element_text el'"
  then show "classifyField (Some el) = classifyField (Some el')"
    by (simp add: classifyField_def)
qed

theorem sensitive_check_first_witness:
  "includes_str (combined_text pin_platform) ''pin''
   \<and> classifyField_rules pin_platform (combined_text pin_platform) = Some ''os''
   \<and> classifyField_detector pin_platform = Some ''sensitive''
   \<and> fd_type phone_os = Some ''tel''
   \<and> classifyField_rules phone_os (combined_text phone_os) = Some ''os''
   \<and> classifyField_detector phone_os = Some ''sensitive''
   \<and> classifyField_detector os_field \<noteq> Some ''sensitive''
   \<and> classifyField_detector os_field = Some ''os''
   \<and> includes_str (element_text secret_platform) (underscored ''secret'')
   \<and> first_pattern (element_text secret_platform) (tl FORM_FIELD_PATTERNS) = Some ''os''
   \<and> classifyField (Some secret_platform) = None
   \<and> classifyField (Some platform_element) = Some ''os''"
proof -
  have k: "''pin'' \<in> set sensitive_keywords" by (simp add: sensitive_keywords_def)
  have i: "includes_str (combined_text pin_platform) ''pin''" by code_simp
  have r1: "classifyField_rules pin_platform (combined_text pin_platform) = Some ''os''"
    by code_simp
  have t: "fd_type phone_os = Some ''tel''" by (simp add: phone_os_def)
  have r2: "classifyField_rules phone_os (combined_text phone_os) = Some ''os''"
    by code_simp
  have r3: "classifyField_rules os_field (combined_text os_field) = Some ''os''"
    by code_simp
  have n: "\<not> ((\<exists>k\<in>set sensitive_keywords. includes_str (combined_text os_field) k)
      \<or> fd_type os_field = Some ''password'' \<or> fd_type os_field = Some ''tel'')"
    by code_simp
  let ?ks = "[''password'', ''passwd'', ''pwd'', ''credit'', ''card'', ''cvv'', ''cvc'',
              ''ssn'', ''bank'', ''pin'', ''otp'', ''auth'', ''token'', ''secret'']"
  have tbl: "map_of FORM_FIELD_PATTERNS ''sensitive'' = Some ?ks"
    by (simp add: FORM_FIELD_PATTERNS_def)
  have sk: "''secret'' \<in> set ?ks" by simp
  have si: "includes_str (element_text secret_platform) (underscored ''secret'')"
    by code_simp
  have so: "first_pattern (element_text secret_platform) (tl FORM_FIELD_PATTERNS) = Some ''os''"
    by code_simp
  have pn: "\<not> (\<exists>k\<in>set ?ks. includes_str (element_text platform_element) (underscored k))"
    by code_simp
  have po: "first_pattern (element_text platform_element) (tl FORM_FIELD_PATTERNS) = Some ''os''"
    by code_simp
  from sensitive_check_first [of pin_platform] k i
  have s1: "classifyField_detector pin_platform = Some ''sensitive''" by blast
  from sensitive_check_first [of phone_os] t
  have s2: "classifyField_detector phone_os = Some ''sensitive''" by blast
  from sensitive_check_first [of os_field] n
  have s3: "classifyField_detector os_field \<noteq> Some ''sensitive''" by blast
  with sensitive_check_first [of os_field] r3
  have s4: "classifyField_detector os_field = Some ''os''" by simp
  from sensitive_check_first [where ks = ?ks and el = secret_platform] tbl sk si
  have c1: "classifyField (Some secret_platform) = None" by blast
  from sensitive_check_first [where ks = ?ks and el = platform_element] tbl pn
  have "classifyField (Some platform_element)
      = first_pattern (element_text platform_element) (tl FORM_FIELD_PATTERNS)"
    by blast
  with po have c2: "classifyField (Some platform_element) = Some ''os''" by simp
  from i r1 s1 t r2 s2 s3 s4 si so c1 c2 show ?thesis by blast
qed

section \<open>Properties of the inference client\<close>

lemma second_attempt:
  "snd (callWithRetry fetch json_parse apiKey prompt systemPrompt (Suc 0))
     = [Fetched \<lparr>rq_apiKey = apiKey, rq_system = systemPrompt, rq_user = prompt\<rparr>]"
  by (simp add: callWithRetry.simps [of _ _ _ _ _ "Suc 0"] Let_def
      split: sum.splits option.splits json.splits)

lemma second_attempt_failure:
  assumes "fetch (Suc 0) \<lparr>rq_apiKey = apiKey, rq_system = systemPrompt, rq_user = prompt\<rparr> = Inr response"
    and "\<not> ok response"
  shows "\<exists>e. fst (callWithRetry fetch json_parse apiKey prompt systemPrompt (Suc 0)) = Inl e"
  using assms
  by (simp add: callWithRetry.simps [of _ _ _ _ _ "Suc 0"] Let_def split: sum.splits)

lemma first_attempt_retry:
  assumes "fetch 0 \<lparr>rq_apiKey = apiKey, rq_system = systemPrompt, rq_user = prompt\<rparr> = Inr response"
    and "status response = 429"
  shows "callWithRetry fetch json_parse apiKey prompt systemPrompt 0
       = (fst (callWithRetry fetch json_parse apiKey prompt systemPrompt (Suc 0)),
          [Fetched \<lparr>rq_apiKey = apiKey, rq_system = systemPrompt, rq_user = prompt\<rparr>,
           Slept (or_else (retry_after response) ''2''),
           Fetched \<lparr>rq_apiKey = apiKey, rq_system = systemPrompt, rq_user = prompt\<rparr>])"
  using assms
  by (simp add: callWithRetry.simps [of _ _ _ _ _ 0] Let_def second_attempt)

lemma first_attempt_final:
  assumes "fetch 0 \<lparr>rq_apiKey = apiKey, rq_system = systemPrompt, rq_user = prompt\<rparr> = Inl e
           \<or> (\<exists>response. fetch 0 \<lparr>rq_apiKey = apiKey, rq_system = systemPrompt, rq_user = prompt\<rparr>
                 = Inr response \<and> status response \<noteq> 429)"
  shows "snd (callWithRetry fetch json_parse apiKey prompt systemPrompt 0)
       = [Fetched \<lparr>rq_apiKey = apiKey, rq_system = systemPrompt, rq_user = prompt\<rparr>]"
  using assms
  by (auto simp: callWithRetry.simps [of _ _ _ _ _ 0] Let_def
      split: sum.splits option.splits json.splits)

lemma first_attempt_failure:
  assumes "fetch 0 \<lparr>rq_apiKey = apiKey, rq_system = systemPrompt, rq_user = prompt\<rparr> = Inr response"
    and "status response \<noteq> 429" and "\<not> ok response"
  shows "\<exists>e. fst (callWithRetry fetch json_parse apiKey prompt systemPrompt 0) = Inl e"
  using assms
  by (simp add: callWithRetry.simps [of _ _ _ _ _ 0] Let_def split: sum.splits)

lemma fetches_simps:
  "fetches [] = 0"
  "fetches (Fetched rq # evs) = Suc (fetches evs)"
  "fetches (Slept t # evs) = fetches evs"
  "fetches (Prompted p # evs) = fetches evs"
  "fetches (Recorded q ss # evs) = fetches evs"
  "fetches (Stored q ss # evs) = fetches evs"
  by (simp_all add: fetches_def is_fetch_def)

lemma prompts_simps:
  "prompts [] = 0"
  "prompts (Prompted p # evs) = Suc (prompts evs)"
  "prompts (Slept t # evs) = prompts evs"
  "prompts (Fetched rq # evs) = prompts evs"
  "prompts (Recorded q ss # evs) = prompts evs"
  "prompts (Stored q ss # evs) = prompts evs"
  by (simp_all add: prompts_def is_prompt_def)

lemma fetches_append: "fetches (xs @ ys) = fetches xs + fetches ys"
  by (simp add: fetches_def)

lemma prompts_append: "prompts (xs @ ys) = prompts xs + prompts ys"
  by (simp add: prompts_def)

lemma call_fetches:
  "1 \<le> fetches (snd (callWithRetry fetch json_parse apiKey prompt systemPrompt 0))
   \<and> fetches (snd (callWithRetry fetch json_parse apiKey prompt systemPrompt 0)) \<le> 2"
proof -
  let ?rq = "\<lparr>rq_apiKey = apiKey, rq_system = systemPrompt, rq_user = prompt\<rparr>"
  show ?thesis
  proof (cases "\<exists>response. fetch 0 ?rq = Inr response \<and> status response = 429")
    case True
    then obtain response where "fetch 0 ?rq = Inr response" "status response = 429" by blast
    then show ?thesis
      using first_attempt_retry [of fetch apiKey systemPrompt prompt response json_parse]
      by (simp add: fetches_simps)
  next
    case False
    then have "fetch 0 ?rq = Inl (projl (fetch 0 ?rq))
        \<or> (\<exists>response. fetch 0 ?rq = Inr response \<and> status response \<noteq> 429)"
      by (cases "fetch 0 ?rq") auto
    then have "snd (callWithRetry fetch json_parse apiKey prompt systemPrompt 0) = [Fetched ?rq]"
      by (rule first_attempt_final)
    then show ?thesis by (simp add: fetches_simps)
  qed
qed

text \<open>
  Claim C7. For a request \<open>rq\<close> made by \<^verbatim>\<open>callWithRetry\<close>:
  \<^item> a first response with status 429 is followed by a pause of the length the header
    \<^verbatim>\<open>retry-after\<close> gives (the text \<^verbatim>\<open>2\<close>, two seconds, when the header is absent or empty)
    and by exactly one more request, whose outcome is the outcome of the call;
  \<^item> that second attempt never retries: a second 429, like any other response that is
    not a success, makes the call throw;
  \<^item> a first response other than 429 that is not a success, or a failing \<^verbatim>\<open>fetch\<close>, ends
    the call after the one request;
  \<^item> so a call makes one or two requests.
\<close>

theorem retry_once_on_429:
  "(fetch 0 \<lparr>rq_apiKey = apiKey, rq_system = systemPrompt, rq_user = prompt\<rparr> = Inr first
      \<and> status first = 429 \<longrightarrow>
      callWithRetry fetch json_parse apiKey prompt systemPrompt 0
        = (fst (callWithRetry fetch json_parse apiKey prompt systemPrompt 1),
           [Fetched \<lparr>rq_apiKey = apiKey, rq_system = systemPrompt, rq_user = prompt\<rparr>,
            Slept (or_else (retry_after first) ''2''),
            Fetched \<lparr>rq_apiKey = apiKey, rq_system = systemPrompt, rq_user = prompt\<rparr>]))
   \<and> snd (callWithRetry fetch json_parse apiKey prompt systemPrompt 1)
        = [Fetched \<lparr>rq_apiKey = apiKey, rq_system = systemPrompt, rq_user = prompt\<rparr>]
   \<and> (fetch 1 \<lparr>rq_apiKey = apiKey, rq_system = systemPrompt, rq_user = prompt\<rparr> = Inr second
      \<and> \<not> ok second \<longrightarrow>
      (\<exists>e. fst (callWithRetry fetch json_parse apiKey prompt systemPrompt 1) = Inl e))
   \<and> (fetch 0 \<lparr>rq_apiKey = apiKey, rq_system = systemPrompt, rq_user = prompt\<rparr> = Inr first
      \<and> status first \<noteq> 429 \<and> \<not> ok first \<longrightarrow>
      (\<exists>e. callWithRetry fetch json_parse apiKey prompt systemPrompt 0
         = (Inl e, [Fetched \<lparr>rq_apiKey = apiKey, rq_system = systemPrompt, rq_user = prompt\<rparr>])))
   \<and> (fetch 0 \<lparr>rq_apiKey = apiKey, rq_system = systemPrompt, rq_user = prompt\<rparr> = Inl err \<longrightarrow>
      callWithRetry fetch json_parse apiKey prompt systemPrompt 0
        = (Inl err, [Fetched \<lparr>rq_apiKey = apiKey, rq_system = systemPrompt, rq_user = prompt\<rparr>]))
   \<and> 1 \<le> fetches (snd (callWithRetry fetch json_parse apiKey prompt systemPrompt 0))
   \<and> fetches (snd (callWithRetry fetch json_parse apiKey prompt systemPrompt 0)) \<le> 2"
proof -
  let ?rq = "\<lparr>rq_apiKey = apiKey, rq_system = systemPrompt, rq_user = prompt\<rparr>"
  have a: "fetch 0 ?rq = Inr first \<and> status first = 429 \<longrightarrow>
      callWithRetry fetch json_parse apiKey prompt systemPrompt 0
        = (fst (callWithRetry fetch json_parse apiKey prompt systemPrompt 1),
           [Fetched ?rq, Slept (or_else (retry_after first) ''2''), Fetched ?rq])"
    using first_attempt_retry [of fetch apiKey systemPrompt prompt first json_parse] by simp
  have b: "snd (callWithRetry fetch json_parse apiKey prompt systemPrompt 1) = [Fetched ?rq]"
    using second_attempt [of fetch json_parse apiKey prompt systemPrompt] by simp
  have c: "fetch 1 ?rq = Inr second \<and> \<not> ok second \<longrightarrow>
      (\<exists>e. fst (callWithRetry fetch json_parse apiKey prompt systemPrompt 1) = Inl e)"
    using second_attempt_failure [of fetch apiKey systemPrompt prompt second json_parse] by simp
  have d: "fetch 0 ?rq = Inr first \<and> status first \<noteq> 429 \<and> \<not> ok first \<longrightarrow>
      (\<exists>e. callWithRetry fetch json_parse apiKey prompt systemPrompt 0 = (Inl e, [Fetched ?rq]))"
  proof
    assume h: "fetch 0 ?rq = Inr first \<and> status first \<noteq> 429 \<and> \<not> ok first"
    then obtain e where "fst (callWithRetry fetch json_parse apiKey prompt systemPrompt 0) = Inl e"
      using first_attempt_failure [of fetch apiKey systemPrompt prompt first json_parse] by blast
    moreover have "snd (callWithRetry fetch json_parse apiKey prompt systemPrompt 0) = [Fetched ?rq]"
      using h first_attempt_final [of fetch apiKey systemPrompt prompt _ json_parse] by blast
    ultimately show "\<exists>e. callWithRetry fetch json_parse apiKey prompt systemPrompt 0
        = (Inl e, [Fetched ?rq])"
      by (metis prod.collapse)
  qed
  have e: "fetch 0 ?rq = Inl err \<longrightarrow>
      callWithRetry fetch json_parse apiKey prompt systemPrompt 0 = (Inl err, [Fetched ?rq])"
    by (simp add: callWithRetry.simps [of _ _ _ _ _ 0] Let_def)
  from a b c d e call_fetches [of fetch json_parse apiKey prompt systemPrompt]
  show ?thesis by blast
qed

theorem retry_once_on_429_witness:
  "callWithRetry always_429 (\<lambda>s. None) ''gsk_key'' ''Q:x'' ContextAwareSystemPrompt 0
     = (Inl (Error ''API Error: 429''),
        [Fetched \<lparr>rq_apiKey = ''gsk_key'', rq_system = ContextAwareSystemPrompt, rq_user = ''Q:x''\<rparr>,
         Slept ''7'',
         Fetched \<lparr>rq_apiKey = ''gsk_key'', rq_system = ContextAwareSystemPrompt, rq_user = ''Q:x''\<rparr>])"
proof -
  let ?rq = "\<lparr>rq_apiKey = ''gsk_key'', rq_system = ContextAwareSystemPrompt, rq_user = ''Q:x''\<rparr>"
  let ?first = "\<lparr>status = 429, retry_after = Some ''7'', body = Inr (JObj [])\<rparr>"
  have f0: "always_429 0 ?rq = Inr ?first \<and> status ?first = 429"
    by (simp add: always_429_def)
  have sn: "show_nat 429 = ''429''" by code_simp
  have second: "fst (callWithRetry always_429 (\<lambda>s. None) ''gsk_key'' ''Q:x'' ContextAwareSystemPrompt 1)
      = Inl (Error ''API Error: 429'')"
    by (simp add: callWithRetry.simps [of _ _ _ _ _ "Suc 0"] always_429_def ok_def Let_def
        api_error_message_def opt_chain_def member_of_def sn)
  have sl: "or_else (retry_after ?first) ''2'' = ''7''"
    by (simp add: or_else_def)
  from retry_once_on_429 [of always_429 "''gsk_key''" ContextAwareSystemPrompt "''Q:x''" ?first "\<lambda>s. None"]
    f0
  have "callWithRetry always_429 (\<lambda>s. None) ''gsk_key'' ''Q:x'' ContextAwareSystemPrompt 0
      = (fst (callWithRetry always_429 (\<lambda>s. None) ''gsk_key'' ''Q:x'' ContextAwareSystemPrompt 1),
         [Fetched ?rq, Slept (or_else (retry_after ?first) ''2''), Fetched ?rq])"
    by blast
  then show ?thesis by (simp only: second sl)
qed

section \<open>Properties of the response validator\<close>

lemma keep_entry_iff:
  "keep_entry (Some e) =
     (3 \<le> length (s_text e) \<and> length (s_text e) \<le> 200
      \<and> \<not> only_brackets_quotes (s_text e)
      \<and> \<not> includes_str (toLowerCase (s_text e)) ''reason:''
      \<and> \<not> includes_str (toLowerCase (s_text e)) ''suggestions:'')"
  by (auto simp: keep_entry_def Let_def)

lemma somes_kept:
  assumes "e \<in> set (somes (filter keep_entry (map f xs)))"
  shows "keep_entry (Some e) \<and> (\<exists>x\<in>set xs. f x = Some e)"
  using assms
proof (induction xs)
  case Nil
  then show ?case by simp
next
  case (Cons x xs)
  show ?case
  proof (cases "f x")
    case None
    then have "keep_entry (f x) = False" by (simp add: keep_entry_def)
    with Cons None show ?thesis by auto
  next
    case (Some y)
    with Cons show ?thesis by (cases "keep_entry (Some y)") auto
  qed
qed

lemma validateSuggestions_length: "length (validateSuggestions v) \<le> 3"
  by (simp add: validateSuggestions_def split: json.splits)

lemma validateSuggestions_member:
  assumes "e \<in> set (validateSuggestions (JArr xs))"
  shows "keep_entry (Some e) \<and> (\<exists>x\<in>set xs. normalise_entry x = Some e)"
proof -
  from assms have "e \<in> set (somes (filter keep_entry (map normalise_entry xs)))"
    unfolding validateSuggestions_def by (auto dest: in_set_takeD)
  then show ?thesis by (rule somes_kept)
qed

lemma ordering_texts:
  "map s_text (validateSuggestionOrdering ss) = map s_text ss"
proof -
  have z: "map snd (zip [0 ..< length ss] ss) = ss"
    by (rule map_snd_zip) simp
  have "map s_text (validateSuggestionOrdering ss)
      = map (s_text \<circ> snd) (zip [0 ..< length ss] ss)"
    by (simp add: validateSuggestionOrdering_def enhance_def Let_def split_def comp_def)
  also have "\<dots> = map s_text (map snd (zip [0 ..< length ss] ss))"
    by (simp only: map_map)
  also have "\<dots> = map s_text ss"
    by (simp only: z)
  finally show ?thesis .
qed

lemma normalized_texts: "map s_text (map normalized ss) = map s_text ss"
  by (simp add: normalized_def)

lemma accept_parsed_texts:
  assumes "accept_parsed parsed = Some r"
  shows "\<exists>ys. member_of parsed ''suggestions'' = Some (JArr ys)
           \<and> map s_text (r_suggestions r) = map s_text (validateSuggestions (JArr ys))"
proof -
  from assms obtain ys where m: "member_of parsed ''suggestions'' = Some (JArr ys)"
    by (auto simp: accept_parsed_def split: option.splits json.splits)
  with assms have "r_suggestions r
      = validateSuggestionOrdering (map normalized (validateSuggestions (JArr ys)))"
    by (auto simp: accept_parsed_def Let_def split: if_splits)
  then have "map s_text (r_suggestions r) = map s_text (validateSuggestions (JArr ys))"
    by (simp only: ordering_texts normalized_texts)
  with m show ?thesis by blast
qed

text \<open>
  Claim C8 as stated fails. The validator's character test is
  \<^verbatim>\<open>/^[{}\[\]"'`]+$/\<close>, which knows no parenthesis and no full stop, and its echo test
  looks for \<^verbatim>\<open>reason:\<close> and \<^verbatim>\<open>suggestions:\<close> only. An answer made of parentheses and full
  stops, and one that echoes the schema's \<^verbatim>\<open>derivation\<close> key, both survive.
\<close>

theorem punctuation_entry_survives:
  "validateSuggestions (JArr [JStr ''(...)'', JStr ''derivation: open tabs''])
     = [\<lparr>s_text = ''(...)'', s_derivation = ''Based on context''\<rparr>,
        \<lparr>s_text = ''derivation: open tabs'', s_derivation = ''Based on context''\<rparr>]
   \<and> spec_purely_punctuation ''(...)''
   \<and> spec_echoes_field_name ''derivation: open tabs''"
  by code_simp

text \<open>
  Claim C8, amended. Every entry that survives \<^verbatim>\<open>validateSuggestions\<close> has a text of 3
  to 200 characters that is not made only of the characters
  \<^verbatim>\<open>{ } [ ] " ' `\<close> and does not contain \<^verbatim>\<open>reason:\<close> or \<^verbatim>\<open>suggestions:\<close> in any
  letter case; it is the normal form of an entry of the input, unchanged by the checks,
  and an entry that fails a check is left out; at most 3 entries survive. The
  suggestions of an accepted answer carry exactly the surviving texts.
\<close>

theorem surviving_entries:
  "length (validateSuggestions (JArr xs)) \<le> 3
   \<and> (\<forall>e\<in>set (validateSuggestions (JArr xs)).
         3 \<le> length (s_text e) \<and> length (s_text e) \<le> 200
         \<and> \<not> only_brackets_quotes (s_text e)
         \<and> \<not> includes_str (toLowerCase (s_text e)) ''reason:''
         \<and> \<not> includes_str (toLowerCase (s_text e)) ''suggestions:''
         \<and> (\<exists>x\<in>set xs. normalise_entry x = Some e))
   \<and> validateSuggestions (JArr xs)
        = take 3 (somes (filter keep_entry (map normalise_entry xs)))
   \<and> (accept_parsed parsed = Some r \<longrightarrow>
         length (r_suggestions r) \<le> 3
         \<and> (\<exists>ys. member_of parsed ''suggestions'' = Some (JArr ys)
               \<and> map s_text (r_suggestions r) = map s_text (validateSuggestions (JArr ys))))"
proof (intro conjI ballI impI)
  show "length (validateSuggestions (JArr xs)) \<le> 3"
    by (rule validateSuggestions_length)
next
  fix e assume e: "e \<in> set (validateSuggestions (JArr xs))"
  from validateSuggestions_member [OF e]
  have k: "keep_entry (Some e)" and x: "\<exists>x\<in>set xs. normalise_entry x = Some e"
    by blast+
  from k show "3 \<le> length (s_text e)" and "length (s_text e) \<le> 200"
    and "\<not> only_brackets_quotes (s_text e)"
    and "\<not> includes_str (toLowerCase (s_text e)) ''reason:''"
    and "\<not> includes_str (toLowerCase (s_text e)) ''suggestions:''"
    by (simp_all add: keep_entry_iff)
  from x show "\<exists>x\<in>set xs. normalise_entry x = Some e" .
next
  show "validateSuggestions (JArr xs)
      = take 3 (somes (filter keep_entry (map normalise_entry xs)))"
    by (simp add: validateSuggestions_def)
next
  assume a: "accept_parsed parsed = Some r"
  from accept_parsed_texts [OF a] obtain ys where
    m: "member_of parsed ''suggestions'' = Some (JArr ys)"
    and t: "map s_text (r_suggestions r) = map s_text (validateSuggestions (JArr ys))"
    by blast
  from t have "length (r_suggestions r) = length (validateSuggestions (JArr ys))"
    by (metis length_map)
  then show "length (r_suggestions r) \<le> 3"
    using validateSuggestions_length [of "JArr ys"] by simp
  from m t show "\<exists>ys. member_of parsed ''suggestions'' = Some (JArr ys)
      \<and> map s_text (r_suggestions r) = map s_text (validateSuggestions (JArr ys))"
    by blast
qed

theorem surviving_entries_witness:
  "validateSuggestions (JArr example_entries)
     = [\<lparr>s_text = ''how does asyncio schedule tasks'', s_derivation = ''session''\<rparr>,
        \<lparr>s_text = ''python asyncio tutorial'', s_derivation = ''Based on context''\<rparr>,
        \<lparr>s_text = ''asyncio versus threads'', s_derivation = ''Based on context''\<rparr>]
   \<and> 3 \<le> length (s_text (hd (validateSuggestions (JArr example_entries))))
   \<and> accept_parsed example_answer
     = Some \<lparr>r_reason = Some (JStr ''ok''),
             r_suggestions =
               [\<lparr>s_text = ''how does asyncio schedule tasks'', s_derivation = ''Session: session''\<rparr>,
                \<lparr>s_text = ''python asyncio tutorial'', s_derivation = ''Context: Based on context''\<rparr>,
                \<lparr>s_text = ''asyncio versus threads'', s_derivation = ''Smart: Based on context''\<rparr>],
             r_isFormFill = False, r_error = None\<rparr>
   \<and> length (r_suggestions (the (accept_parsed example_answer))) \<le> 3"
proof -
  let ?r = "\<lparr>r_reason = Some (JStr ''ok''),
             r_suggestions =
               [\<lparr>s_text = ''how does asyncio schedule tasks'', s_derivation = ''Session: session''\<rparr>,
                \<lparr>s_text = ''python asyncio tutorial'', s_derivation = ''Context: Based on context''\<rparr>,
                \<lparr>s_text = ''asyncio versus threads'', s_derivation = ''Smart: Based on context''\<rparr>],
             r_isFormFill = False, r_error = None\<rparr>"
  have v: "validateSuggestions (JArr example_entries)
     = [\<lparr>s_text = ''how does asyncio schedule tasks'', s_derivation = ''session''\<rparr>,
        \<lparr>s_text = ''python asyncio tutorial'', s_derivation = ''Based on context''\<rparr>,
        \<lparr>s_text = ''asyncio versus threads'', s_derivation = ''Based on context''\<rparr>]"
    by code_simp
  have a: "accept_parsed example_answer = Some ?r"
    by code_simp
  note main = surviving_entries [of example_entries example_answer ?r]
  from v have "hd (validateSuggestions (JArr example_entries))
      \<in> set (validateSuggestions (JArr example_entries))"
    by simp
  with main have h: "3 \<le> length (s_text (hd (validateSuggestions (JArr example_entries))))"
    by blast
  from main a have "length (r_suggestions ?r) \<le> 3"
    by blast
  with v h a show ?thesis by simp
qed

section \<open>Failure handling\<close>

lemma parse_failure_fields:
  "r_suggestions parse_failure = []"
  "r_reason parse_failure = Some (JStr ''Could not parse AI response'')"
  by (simp_all add: parse_failure_def)

lemma parseResponse_failure:
  assumes "json_parse (cleaned_text content) = None"
    and "brace_match (cleaned_text content) = None
         \<or> (\<exists>m. brace_match (cleaned_text content) = Some m \<and> json_parse m = None)"
  shows "parseResponse json_parse content = parse_failure"
  using assms by (auto simp: parseResponse_def Let_def)

lemma worker_returns: "\<exists>r. fst (generateSuggestions_worker h cm data) = Inr r"
proof (cases "worker_try h cm data")
  case (fields outcome cm' events)
  show ?thesis
  proof (cases outcome)
    case (Inl e)
    then show ?thesis
      using fields by (cases e) (simp add: generateSuggestions_worker_def)
  next
    case (Inr r)
    then show ?thesis
      using fields by (simp add: generateSuggestions_worker_def)
  qed
qed

lemma groq_unparsable:
  assumes key: "getApiKey cm = Inr k"
    and local: "form_fill_meta ctx = None"
    and prompt: "prompt = (if has_field_type ctx then buildFormFieldPrompt ctx
                           else buildContextAwarePrompt ctx)"
    and sys: "sys = (if has_field_type ctx then FormFillSystemPrompt else ContextAwareSystemPrompt)"
    and resp: "fetch 0 \<lparr>rq_apiKey = k, rq_system = sys, rq_user = prompt\<rparr> = Inr response"
    and good: "ok response"
    and body: "body response = Inr data"
    and content: "response_content data = Inr (Some (JStr s))" "s \<noteq> []"
    and fail: "parseResponse json_parse s = parse_failure"
  shows "fst (generateSuggestions_groq cm fetch json_parse ctx) = parse_failure"
proof -
  from good have n429: "status response \<noteq> 429" by (auto simp: ok_def)
  have "fst (callWithRetry fetch json_parse k prompt sys 0) = Inr (parseResponse json_parse s)"
    using resp good n429 body content
    by (simp add: callWithRetry.simps [of _ _ _ _ _ 0] Let_def truthy_opt_def truthy_def)
  then show ?thesis
    using key local prompt sys fail
    by (simp add: generateSuggestions_groq_def Let_def)
qed

text \<open>
  Claim C9. When \<^verbatim>\<open>JSON.parse\<close> throws on the fence-stripped text and the text has no
  brace-delimited part, or \<^verbatim>\<open>JSON.parse\<close> throws on that part too, \<^verbatim>\<open>parseResponse\<close>
  returns the result with no suggestions and the reason
  \<^verbatim>\<open>Could not parse AI response\<close>; a generation whose answer is such a payload returns
  that result; and \<^verbatim>\<open>generateSuggestions\<close> of the service worker returns a response
  for every request and every behaviour of the host: no error leaves it.
\<close>

theorem malformed_answer_contained:
  "(json_parse (cleaned_text content) = None
      \<and> (brace_match (cleaned_text content) = None
          \<or> (\<exists>m. brace_match (cleaned_text content) = Some m \<and> json_parse m = None))
     \<longrightarrow> parseResponse json_parse content = parse_failure)
   \<and> r_suggestions parse_failure = []
   \<and> r_reason parse_failure = Some (JStr ''Could not parse AI response'')
   \<and> (getApiKey cm = Inr k \<and> form_fill_meta ctx = None
        \<and> fetch 0 \<lparr>rq_apiKey = k,
                    rq_system = (if has_field_type ctx then FormFillSystemPrompt
                                 else ContextAwareSystemPrompt),
                    rq_user = (if has_field_type ctx then buildFormFieldPrompt ctx
                               else buildContextAwarePrompt ctx)\<rparr> = Inr response
        \<and> ok response \<and> body response = Inr data
        \<and> response_content data = Inr (Some (JStr content)) \<and> content \<noteq> []
        \<and> json_parse (cleaned_text content) = None
        \<and> (brace_match (cleaned_text content) = None
            \<or> (\<exists>m. brace_match (cleaned_text content) = Some m \<and> json_parse m = None))
     \<longrightarrow> fst (generateSuggestions_groq cm fetch json_parse ctx) = parse_failure)
   \<and> (\<exists>r. fst (generateSuggestions_worker h wcm data') = Inr r)"
proof (intro conjI impI)
  assume "json_parse (cleaned_text content) = None
      \<and> (brace_match (cleaned_text content) = None
          \<or> (\<exists>m. brace_match (cleaned_text content) = Some m \<and> json_parse m = None))"
  then show "parseResponse json_parse content = parse_failure"
    using parseResponse_failure by blast
next
  show "r_suggestions parse_failure = []"
    and "r_reason parse_failure = Some (JStr ''Could not parse AI response'')"
    by (rule parse_failure_fields)+
next
  let ?sys = "if has_field_type ctx then FormFillSystemPrompt else ContextAwareSystemPrompt"
  let ?prompt = "if has_field_type ctx then buildFormFieldPrompt ctx else buildContextAwarePrompt ctx"
  assume h: "getApiKey cm = Inr k \<and> form_fill_meta ctx = None
        \<and> fetch 0 \<lparr>rq_apiKey = k, rq_system = ?sys, rq_user = ?prompt\<rparr> = Inr response
        \<and> ok response \<and> body response = Inr data
        \<and> response_content data = Inr (Some (JStr content)) \<and> content \<noteq> []
        \<and> json_parse (cleaned_text content) = None
        \<and> (brace_match (cleaned_text content) = None
            \<or> (\<exists>m. brace_match (cleaned_text content) = Some m \<and> json_parse m = None))"
  then have f: "parseResponse json_parse content = parse_failure"
    using parseResponse_failure by blast
  from h have key: "getApiKey cm = Inr k" and local: "form_fill_meta ctx = None"
    and resp: "fetch 0 \<lparr>rq_apiKey = k, rq_system = ?sys, rq_user = ?prompt\<rparr> = Inr response"
    and good: "ok response" and body: "body response = Inr data"
    and c1: "response_content data = Inr (Some (JStr content))" and c2: "content \<noteq> []"
    by blast+
  show "fst (generateSuggestions_groq cm fetch json_parse ctx) = parse_failure"
    using groq_unparsable [of cm k ctx ?prompt ?sys fetch response data content json_parse]
      key local resp good body c1 c2 f
    by simp
next
  show "\<exists>r. fst (generateSuggestions_worker h wcm data') = Inr r"
    by (rule worker_returns)
qed

theorem malformed_answer_contained_witness:
  "cleaned_text ''Sorry, I cannot help with that.'' = ''Sorry, I cannot help with that.''
   \<and> brace_match ''Sorry, I cannot help with that.'' = None
   \<and> parseResponse (\<lambda>s. None) ''Sorry, I cannot help with that.'' = parse_failure
   \<and> brace_match (cleaned_text ''Here you go: {text: oops}'') = Some ''{text: oops}''
   \<and> parseResponse (\<lambda>s. None) ''Here you go: {text: oops}'' = parse_failure
   \<and> fst (generateSuggestions_groq ready_cm apology_fetch (\<lambda>s. None) plain_context) = parse_failure"
proof -
  let ?a = "''Sorry, I cannot help with that.''"
  let ?b = "''Here you go: {text: oops}''"
  let ?jp = "(\<lambda>s. None) :: string \<Rightarrow> json option"
  let ?data = "JObj [(''choices'', JArr [JObj [(''message'', JObj [(''content'', JStr ?a)])]])]"
  let ?response = "\<lparr>status = 200, retry_after = None, body = Inr ?data\<rparr>"
  have c: "cleaned_text ?a = ?a" by code_simp
  have b: "brace_match ?a = None" by code_simp
  have m: "brace_match (cleaned_text ?b) = Some ''{text: oops}''" by code_simp
  from malformed_answer_contained [where json_parse = ?jp and content = ?a] c b
  have 1: "parseResponse ?jp ?a = parse_failure" by simp
  from malformed_answer_contained [where json_parse = ?jp and content = ?b] m
  have 2: "parseResponse ?jp ?b = parse_failure" by simp
  have key: "getApiKey ready_cm = Inr ''gsk_key''"
    by (simp add: getApiKey_def ready_cm_def)
  have local: "form_fill_meta plain_context = None"
    by (simp add: form_fill_meta_def plain_context_def)
  have resp: "apology_fetch 0 rq = Inr ?response" for rq
    by (simp add: apology_fetch_def)
  have good: "ok ?response \<and> body ?response = Inr ?data"
    by (simp add: ok_def)
  have cont: "response_content ?data = Inr (Some (JStr ?a)) \<and> ?a \<noteq> []"
    by code_simp
  from malformed_answer_contained
    [where json_parse = ?jp and content = ?a and cm = ready_cm and k = "''gsk_key''"
       and ctx = plain_context and fetch = apology_fetch and response = ?response
       and data = ?data]
    key local resp good cont c b
  have 3: "fst (generateSuggestions_groq ready_cm apology_fetch ?jp plain_context) = parse_failure"
    by simp
  from c b m 1 2 3 show ?thesis by blast
qed

section \<open>Properties of the service worker\<close>

text \<open>
  Claim C1 as stated fails. The service worker runs \<^verbatim>\<open>isSensitiveInput\<close> only when both
  the input text and \<^verbatim>\<open>data.fieldName\<close> are non-empty. The content script sends the empty
  field name for an element without name, id and placeholder; a text that matches a
  sensitive pattern, typed into such a field, goes into a prompt and to the inference
  endpoint.
\<close>

theorem sensitive_text_unnamed_field:
  "isSensitiveInput ''my password is hunter2'' []
   \<and> snd (snd (generateSuggestions_worker quiet_host ready_cm unnamed_field_request))
     = [Prompted (''Q:'' @ [CHR 0x22] @ ''my password is hunter2'' @ [CHR 0x22]),
        Fetched \<lparr>rq_apiKey = ''gsk_key'', rq_system = ContextAwareSystemPrompt,
                 rq_user = ''Q:'' @ [CHR 0x22] @ ''my password is hunter2'' @ [CHR 0x22]\<rparr>,
        Recorded ''my password is hunter2'' []]"
  by code_simp

lemma worker_try_sensitive:
  assumes nm: "d_fieldName data = Some fn" "fn \<noteq> []"
    and nonempty: "or_else (d_active_input_text data) (getActiveInputText h) \<noteq> []"
    and sens: "isSensitiveInput (or_else (d_active_input_text data) (getActiveInputText h)) fn"
  shows "snd (snd (worker_try h cm data)) = []
       \<and> (\<forall>r. fst (worker_try h cm data) = Inr r \<longrightarrow> rs_suggestions r = [])
       \<and> (\<forall>en cm' i. h_extensionEnabled h = Inr en \<and> en \<noteq> Some False
              \<and> initialize (h_stored_config h) cm = Inr cm' \<and> isConfigured cm'
              \<and> h_intent h = Inr i
            \<longrightarrow> fst (worker_try h cm data) = Inr (plain_response True ''Sensitive input detected''))"
proof -
  have f: "or_else (d_fieldName data) [] = fn"
    using nm by (simp add: or_else_def)
  have t: "active_input_text (collectContext h) = getActiveInputText h"
    by (simp add: collectContext_def)
  show ?thesis
    using nonempty sens nm(2)
    by (auto simp: worker_try_def Let_def f t plain_response_def failure_response_def
        split: sum.splits option.splits)
qed

lemma isSensitiveField_type:
  assumes "el_type el = Some t"
    and "toLowerCase t = ''password'' \<or> toLowerCase t = ''tel'' \<or> toLowerCase t = ''number''"
  shows "isSensitiveField (Some el)"
  using assms by (auto simp: isSensitiveField_def Let_def)

text \<open>
  Claim C1, amended. For every request whose input text and field name are both
  non-empty and whose text and field name, joined and lower-cased, match a pattern of
  \<^verbatim>\<open>isSensitiveInput\<close>, the service worker builds no prompt, makes no inference call and
  writes nothing, and answers with an empty suggestion list; when the extension is
  enabled and configured and the session intent can be read, the answer is the
  successful one with the reason \<^verbatim>\<open>Sensitive input detected\<close>. Input types do not
  reach the service worker; it is the content script's \<^verbatim>\<open>isSensitiveField\<close> that reports
  a field of type \<^verbatim>\<open>password\<close>, \<^verbatim>\<open>tel\<close> or \<^verbatim>\<open>number\<close> as sensitive.
\<close>

theorem sensitive_request_blocked:
  "(el_type el = Some t
      \<and> (toLowerCase t = ''password'' \<or> toLowerCase t = ''tel'' \<or> toLowerCase t = ''number'')
    \<longrightarrow> isSensitiveField (Some el))
   \<and> (d_fieldName data = Some fn \<and> fn \<noteq> []
     \<and> or_else (d_active_input_text data) (getActiveInputText h) \<noteq> []
     \<and> isSensitiveInput (or_else (d_active_input_text data) (getActiveInputText h)) fn
   \<longrightarrow>
     snd (snd (generateSuggestions_worker h cm data)) = []
     \<and> (\<exists>r. fst (generateSuggestions_worker h cm data) = Inr r \<and> rs_suggestions r = [])
     \<and> (h_extensionEnabled h = Inr en \<and> en \<noteq> Some False
          \<and> initialize (h_stored_config h) cm = Inr cm' \<and> isConfigured cm'
          \<and> h_intent h = Inr i
        \<longrightarrow> fst (generateSuggestions_worker h cm data)
              = Inr (plain_response True ''Sensitive input detected'')))"
proof (intro conjI impI)
  assume "el_type el = Some t
      \<and> (toLowerCase t = ''password'' \<or> toLowerCase t = ''tel'' \<or> toLowerCase t = ''number'')"
  then show "isSensitiveField (Some el)"
    using isSensitiveField_type by blast
next
  assume a: "d_fieldName data = Some fn \<and> fn \<noteq> []
     \<and> or_else (d_active_input_text data) (getActiveInputText h) \<noteq> []
     \<and> isSensitiveInput (or_else (d_active_input_text data) (getActiveInputText h)) fn"
  then have w: "snd (snd (worker_try h cm data)) = []
       \<and> (\<forall>r. fst (worker_try h cm data) = Inr r \<longrightarrow> rs_suggestions r = [])
       \<and> (\<forall>en cm' i. h_extensionEnabled h = Inr en \<and> en \<noteq> Some False
              \<and> initialize (h_stored_config h) cm = Inr cm' \<and> isConfigured cm'
              \<and> h_intent h = Inr i
            \<longrightarrow> fst (worker_try h cm data) = Inr (plain_response True ''Sensitive input detected''))"
    using worker_try_sensitive [of data fn h cm] by blast
  obtain outcome cm2 events where wt: "worker_try h cm data = (outcome, cm2, events)"
    by (cases "worker_try h cm data") auto
  from w wt have ev: "events = []" by simp
  have 1: "snd (snd (generateSuggestions_worker h cm data)) = []"
    using wt ev by (simp add: generateSuggestions_worker_def split: sum.splits error.splits)
  have 2: "\<exists>r. fst (generateSuggestions_worker h cm data) = Inr r \<and> rs_suggestions r = []"
  proof (cases outcome)
    case (Inl e)
    then show ?thesis using wt
      by (cases e) (simp add: generateSuggestions_worker_def failure_response_def)
  next
    case (Inr r)
    with w wt have "rs_suggestions r = []" by simp
    with Inr wt show ?thesis by (simp add: generateSuggestions_worker_def)
  qed
  have 3: "h_extensionEnabled h = Inr en \<and> en \<noteq> Some False
          \<and> initialize (h_stored_config h) cm = Inr cm' \<and> isConfigured cm'
          \<and> h_intent h = Inr i
        \<longrightarrow> fst (generateSuggestions_worker h cm data)
              = Inr (plain_response True ''Sensitive input detected'')"
  proof
    assume "h_extensionEnabled h = Inr en \<and> en \<noteq> Some False
          \<and> initialize (h_stored_config h) cm = Inr cm' \<and> isConfigured cm'
          \<and> h_intent h = Inr i"
    with w have "fst (worker_try h cm data) = Inr (plain_response True ''Sensitive input detected'')"
      by blast
    with wt show "fst (generateSuggestions_worker h cm data)
              = Inr (plain_response True ''Sensitive input detected'')"
      by (simp add: generateSuggestions_worker_def)
  qed
  from 1 show "snd (snd (generateSuggestions_worker h cm data)) = []" .
  from 2 show "\<exists>r. fst (generateSuggestions_worker h cm data) = Inr r \<and> rs_suggestions r = []" .
  assume "h_extensionEnabled h = Inr en \<and> en \<noteq> Some False
          \<and> initialize (h_stored_config h) cm = Inr cm' \<and> isConfigured cm'
          \<and> h_intent h = Inr i"
  with 3 show "fst (generateSuggestions_worker h cm data)
              = Inr (plain_response True ''Sensitive input detected'')"
    by blast
qed

theorem sensitive_request_blocked_witness:
  "isSensitiveInput ''my password is hunter2'' ''notes''
   \<and> generateSuggestions_worker quiet_host ready_cm named_field_request
     = (Inr (plain_response True ''Sensitive input detected''), ready_cm, [])"
proof -
  have nm: "d_fieldName named_field_request = Some ''notes'' \<and> ''notes'' \<noteq> []"
    by (simp add: named_field_request_def)
  have tx: "or_else (d_active_input_text named_field_request) (getActiveInputText quiet_host)
      = ''my password is hunter2''"
    by (simp add: named_field_request_def or_else_def)
  have s: "isSensitiveInput ''my password is hunter2'' ''notes''"
    by code_simp
  have en: "h_extensionEnabled quiet_host = Inr None \<and> None \<noteq> Some False"
    by (simp add: quiet_host_def)
  have ini: "initialize (h_stored_config quiet_host) ready_cm = Inr ready_cm"
    by (simp add: initialize_def ready_cm_def)
  have conf: "isConfigured ready_cm"
    by (simp add: isConfigured_def ready_cm_def)
  have int: "h_intent quiet_host = Inr None"
    by (simp add: quiet_host_def)
  from sensitive_request_blocked
    [where data = named_field_request and fn = "''notes''" and h = quiet_host
       and cm = ready_cm and en = None and cm' = ready_cm and i = None]
    nm tx s en ini conf int
  have r: "snd (snd (generateSuggestions_worker quiet_host ready_cm named_field_request)) = []
     \<and> fst (generateSuggestions_worker quiet_host ready_cm named_field_request)
         = Inr (plain_response True ''Sensitive input detected'')"
    by simp
  have c: "fst (snd (generateSuggestions_worker quiet_host ready_cm named_field_request)) = ready_cm"
    by code_simp
  from r c s show ?thesis
    by (metis prod.collapse)
qed

section \<open>Properties of the form-fill path\<close>

text \<open>
  Claim C3 as stated fails at two places. \<^verbatim>\<open>GroqService.generateSuggestions\<close> reads the
  API key before it looks at the candidates, so without a key a request with local
  candidates gets the error result, not the candidates. And \<^verbatim>\<open>detectOS\<close> tests for
  \<^verbatim>\<open>Windows NT 11\<close> before \<^verbatim>\<open>Windows NT 10\<close>, so an identity string that contains both
  yields \<^verbatim>\<open>Windows 11\<close>.
\<close>

theorem form_fill_needs_key:
  "generateSuggestions_groq no_key_cm (h_fetch quiet_host) (h_json_parse quiet_host) windows_request
     = (\<lparr>r_reason = Some (JStr ''Error generating suggestions''), r_suggestions = [],
         r_isFormFill = False, r_error = Some ''Groq API key not configured''\<rparr>, [])
   \<and> includes_str mixed_agent ''Windows NT 10''
   \<and> buildFieldMeta mixed_agent None platform_element
     = Some \<lparr>fieldType = ''os'', fieldLabel = ''platform'', isFormFill = True,
             candidates = [\<lparr>c_value = ''Windows 11'', c_source = ''Your device'',
                            c_confidence = 1\<rparr>]\<rparr>"
  by code_simp

lemma form_fill_meta_Some:
  assumes "ctx_fieldMeta ctx = Some m" and "isFormFill m" and "candidates m \<noteq> []"
  shows "form_fill_meta ctx = Some m"
  using assms by (simp add: form_fill_meta_def)

lemma detectOS_windows_10:
  assumes "includes_str ua ''Windows NT 10''" and "\<not> includes_str ua ''Windows NT 11''"
  shows "detectOS ua = Some ''Windows 10''"
  using assms by (simp add: detectOS_def)

lemma buildFieldMeta_os:
  assumes "classifyField (Some el) = Some ''os''" and "detectOS ua = Some ''Windows 10''"
  shows "buildFieldMeta ua lbl el
       = Some \<lparr>fieldType = ''os'',
               fieldLabel = first_truthy [lbl, el_placeholder el, el_name el, el_id el] ''os'',
               isFormFill = True,
               candidates = [\<lparr>c_value = ''Windows 10'', c_source = ''Your device'',
                              c_confidence = 1\<rparr>]\<rparr>"
  using assms
  by (simp add: buildFieldMeta_def Let_def os_candidates_def browser_candidates_def
      issue_candidates_def device_candidate_def)

text \<open>
  Claim C3, amended. With an API key configured, for every request that carries field
  metadata marked form-fill with a non-empty candidate list,
  \<^verbatim>\<open>GroqService.generateSuggestions\<close> returns the result built from those candidates alone
  (each candidate's value as the suggestion text, the derivation
  \<^verbatim>\<open>Auto-filled from\<close> followed by the candidate's source, the form-fill flag set) and
  builds no prompt and makes no inference call. For a field the content script
  classifies as \<^verbatim>\<open>os\<close>, on a platform whose identity string contains \<^verbatim>\<open>Windows NT 10\<close>
  and not \<^verbatim>\<open>Windows NT 11\<close>, \<^verbatim>\<open>buildFieldMeta\<close> marks the metadata form-fill with the
  single candidate \<^verbatim>\<open>Windows 10\<close> of confidence 1.
\<close>

theorem form_fill_bypasses_inference:
  "(getApiKey cm = Inr k \<and> ctx_fieldMeta ctx = Some m \<and> isFormFill m \<and> candidates m \<noteq> []
     \<longrightarrow> generateSuggestions_groq cm fetch json_parse ctx = (buildFormFillResponse m, []))
   \<and> r_suggestions (buildFormFillResponse m)
        = map (\<lambda>c. \<lparr>s_text = c_value c, s_derivation = ''Auto-filled from '' @ c_source c\<rparr>)
            (candidates m)
   \<and> r_isFormFill (buildFormFillResponse m)
   \<and> (classifyField (Some el) = Some ''os'' \<and> includes_str ua ''Windows NT 10''
        \<and> \<not> includes_str ua ''Windows NT 11''
     \<longrightarrow> buildFieldMeta ua lbl el
          = Some \<lparr>fieldType = ''os'',
                  fieldLabel = first_truthy [lbl, el_placeholder el, el_name el, el_id el] ''os'',
                  isFormFill = True,
                  candidates = [\<lparr>c_value = ''Windows 10'', c_source = ''Your device'',
                                 c_confidence = 1\<rparr>]\<rparr>)"
proof (intro conjI impI)
  assume a: "getApiKey cm = Inr k \<and> ctx_fieldMeta ctx = Some m \<and> isFormFill m \<and> candidates m \<noteq> []"
  then have "form_fill_meta ctx = Some m"
    using form_fill_meta_Some by blast
  with a show "generateSuggestions_groq cm fetch json_parse ctx = (buildFormFillResponse m, [])"
    by (simp add: generateSuggestions_groq_def)
next
  show "r_suggestions (buildFormFillResponse m)
        = map (\<lambda>c. \<lparr>s_text = c_value c, s_derivation = ''Auto-filled from '' @ c_source c\<rparr>)
            (candidates m)"
    by (simp add: buildFormFillResponse_def)
next
  show "r_isFormFill (buildFormFillResponse m)"
    by (simp add: buildFormFillResponse_def)
next
  assume b: "classifyField (Some el) = Some ''os'' \<and> includes_str ua ''Windows NT 10''
        \<and> \<not> includes_str ua ''Windows NT 11''"
  then have "detectOS ua = Some ''Windows 10''"
    using detectOS_windows_10 by blast
  with b show "buildFieldMeta ua lbl el
          = Some \<lparr>fieldType = ''os'',
                  fieldLabel = first_truthy [lbl, el_placeholder el, el_name el, el_id el] ''os'',
                  isFormFill = True,
                  candidates = [\<lparr>c_value = ''Windows 10'', c_source = ''Your device'',
                                 c_confidence = 1\<rparr>]\<rparr>"
    using buildFieldMeta_os by blast
qed

theorem form_fill_bypasses_inference_witness:
  "buildFieldMeta windows_10_agent None platform_element
     = Some \<lparr>fieldType = ''os'', fieldLabel = ''platform'', isFormFill = True,
             candidates = [\<lparr>c_value = ''Windows 10'', c_source = ''Your device'',
                            c_confidence = 1\<rparr>]\<rparr>
   \<and> generateSuggestions_groq ready_cm (h_fetch quiet_host) (h_json_parse quiet_host) windows_request
     = (\<lparr>r_reason = Some (JStr (''Smart fill for '' @ [CHR 0x22] @ ''Operating system'' @ [CHR 0x22])),
         r_suggestions = [\<lparr>s_text = ''Windows 10'', s_derivation = ''Auto-filled from Your device''\<rparr>],
         r_isFormFill = True, r_error = None\<rparr>, [])"
proof -
  have key: "getApiKey ready_cm = Inr ''gsk_key''"
    by (simp add: getApiKey_def ready_cm_def)
  have meta: "ctx_fieldMeta windows_request = Some windows_meta \<and> isFormFill windows_meta
      \<and> candidates windows_meta \<noteq> []"
    by (simp add: windows_request_def windows_meta_def)
  have cls: "classifyField (Some platform_element) = Some ''os''"
    by code_simp
  have ua: "includes_str windows_10_agent ''Windows NT 10''
      \<and> \<not> includes_str windows_10_agent ''Windows NT 11''"
    by code_simp
  have lbl: "first_truthy [None, el_placeholder platform_element, el_name platform_element,
      el_id platform_element] ''os'' = ''platform''"
    by code_simp
  have resp: "buildFormFillResponse windows_meta
      = \<lparr>r_reason = Some (JStr (''Smart fill for '' @ [CHR 0x22] @ ''Operating system'' @ [CHR 0x22])),
         r_suggestions = [\<lparr>s_text = ''Windows 10'', s_derivation = ''Auto-filled from Your device''\<rparr>],
         r_isFormFill = True, r_error = None\<rparr>"
    by (simp add: buildFormFillResponse_def windows_meta_def)
  note main = form_fill_bypasses_inference
    [of ready_cm "''gsk_key''" windows_request windows_meta "h_fetch quiet_host"
        "h_json_parse quiet_host" platform_element windows_10_agent None]
  from main key meta have 1: "generateSuggestions_groq ready_cm (h_fetch quiet_host)
      (h_json_parse quiet_host) windows_request = (buildFormFillResponse windows_meta, [])"
    by blast
  from main cls ua have 2: "buildFieldMeta windows_10_agent None platform_element
      = Some \<lparr>fieldType = ''os'',
              fieldLabel = first_truthy [None, el_placeholder platform_element,
                el_name platform_element, el_id platform_element] ''os'',
              isFormFill = True,
              candidates = [\<lparr>c_value = ''Windows 10'', c_source = ''Your device'',
                             c_confidence = 1\<rparr>]\<rparr>"
    by blast
  from 1 2 show ?thesis by (simp only: resp lbl)
qed

section \<open>The rate limiter and the generation path\<close>

text \<open>
  Claim C4 as stated fails. No function of the generation path takes, creates or asks a
  \<^verbatim>\<open>RateLimiter\<close>: the class is exported by its module and imported nowhere. At a
  moment at which a limiter that has admitted ten checks in the last ten milliseconds
  would decline, a generation sends its HTTP request all the same.
\<close>

theorem generation_ignores_limiter:
  "\<not> fst (checkLimit (h_now quiet_host) (limiter_after [0, 1, 2, 3, 4, 5, 6, 7, 8, 9]))
   \<and> fst (getRemainingRequests (h_now quiet_host) (limiter_after [0, 1, 2, 3, 4, 5, 6, 7, 8, 9])) = 0
   \<and> fetches (snd (snd (generateSuggestions_worker quiet_host ready_cm plain_request))) = 1"
  by code_simp

lemma exhausted_window:
  assumes w: "windowMs rl = 60000"
    and full: "10 \<le> length (filter (\<lambda>t. now - t < 60000) (requests rl))"
  shows "\<not> fst (checkLimit now rl)"
    and "requests (snd (checkLimit now rl)) = filter (\<lambda>t. now - t < 60000) (requests rl)"
    and "fst (getRemainingRequests now rl) = 0"
  using assms
  by (simp_all add: checkLimit_def getRemainingRequests_def Let_def maxRequests_def)

lemma exhausted_reset:
  assumes w: "windowMs rl = 60000"
    and full: "10 \<le> length (filter (\<lambda>t. now - t < 60000) (requests rl))"
  shows "getTimeUntilReset now (snd (checkLimit now rl))
           = Min (set (filter (\<lambda>t. now - t < 60000) (requests rl))) + 60000 - now
       \<and> 0 < getTimeUntilReset now (snd (checkLimit now rl))"
proof -
  let ?live = "filter (\<lambda>t. now - t < 60000) (requests rl)"
  let ?rl = "snd (checkLimit now rl)"
  have req: "requests ?rl = ?live" using exhausted_window(2) [OF assms] .
  have wm: "windowMs ?rl = 60000" using w by (simp add: checkLimit_windowMs)
  from full have ne: "?live \<noteq> []" by auto
  then have "set ?live \<noteq> {}" by (simp only: set_empty not_False_eq_True)
  then have "Min (set ?live) \<in> set ?live" by (rule Min_in [OF finite_set])
  then have young: "now - Min (set ?live) < 60000" by simp
  have "getTimeUntilReset now ?rl = max 0 (Min (set ?live) + 60000 - now)"
    using time_until_reset [of ?rl now] ne by (simp add: req wm)
  with young show ?thesis by simp
qed

lemma groq_fetches:
  assumes "getApiKey cm = Inr k" and "form_fill_meta ctx = None"
  shows "1 \<le> fetches (snd (generateSuggestions_groq cm fetch json_parse ctx))"
  using assms call_fetches [of fetch json_parse k _ _]
  by (simp add: generateSuggestions_groq_def Let_def fetches_simps split: sum.splits)

text \<open>
  Claim C4, amended. The sliding-window limiter is a component of its own, which the
  generation path does not consult: a generation with a key configured and no local
  form-fill candidates makes an HTTP request whatever the state of any limiter. Asked
  directly when its window is exhausted (ten recorded admissions younger than 60000
  ms), the limiter declines, records nothing, reports no remaining request and reports
  as time to reset the positive time until its earliest live admission ages out.
\<close>

theorem limiter_stands_alone:
  "(windowMs rl = 60000 \<and> 10 \<le> length (filter (\<lambda>t. now - t < 60000) (requests rl))
     \<longrightarrow> \<not> fst (checkLimit now rl)
       \<and> requests (snd (checkLimit now rl)) = filter (\<lambda>t. now - t < 60000) (requests rl)
       \<and> fst (getRemainingRequests now rl) = 0
       \<and> getTimeUntilReset now (snd (checkLimit now rl))
           = Min (set (filter (\<lambda>t. now - t < 60000) (requests rl))) + 60000 - now
       \<and> 0 < getTimeUntilReset now (snd (checkLimit now rl)))
   \<and> (getApiKey cm = Inr k \<and> form_fill_meta ctx = None
     \<longrightarrow> 1 \<le> fetches (snd (generateSuggestions_groq cm fetch json_parse ctx)))"
proof (intro conjI impI)
  assume a: "windowMs rl = 60000 \<and> 10 \<le> length (filter (\<lambda>t. now - t < 60000) (requests rl))"
  then have w: "windowMs rl = 60000"
    and full: "10 \<le> length (filter (\<lambda>t. now - t < 60000) (requests rl))"
    by blast+
  show "\<not> fst (checkLimit now rl)"
    using exhausted_window(1) [OF w full] .
  show "requests (snd (checkLimit now rl)) = filter (\<lambda>t. now - t < 60000) (requests rl)"
    using exhausted_window(2) [OF w full] .
  show "fst (getRemainingRequests now rl) = 0"
    using exhausted_window(3) [OF w full] .
  show "getTimeUntilReset now (snd (checkLimit now rl))
           = Min (set (filter (\<lambda>t. now - t < 60000) (requests rl))) + 60000 - now"
    using exhausted_reset [OF w full] by blast
  show "0 < getTimeUntilReset now (snd (checkLimit now rl))"
    using exhausted_reset [OF w full] by blast
next
  assume "getApiKey cm = Inr k \<and> form_fill_meta ctx = None"
  then show "1 \<le> fetches (snd (generateSuggestions_groq cm fetch json_parse ctx))"
    using groq_fetches by blast
qed

theorem limiter_stands_alone_witness:
  "\<not> fst (checkLimit 10 \<lparr>requests = [0, 1, 2, 3, 4, 5, 6, 7, 8, 9], windowMs = 60000\<rparr>)
   \<and> fst (getRemainingRequests 10 \<lparr>requests = [0, 1, 2, 3, 4, 5, 6, 7, 8, 9], windowMs = 60000\<rparr>) = 0
   \<and> getTimeUntilReset 10
       (snd (checkLimit 10 \<lparr>requests = [0, 1, 2, 3, 4, 5, 6, 7, 8, 9], windowMs = 60000\<rparr>)) = 59990"
proof -
  let ?rl = "\<lparr>requests = [0, 1, 2, 3, 4, 5, 6, 7, 8, 9], windowMs = 60000\<rparr>"
  have live: "filter (\<lambda>t. 10 - t < 60000) (requests ?rl) = [0, 1, 2, 3, 4, 5, 6, 7, 8, 9]"
    by simp
  have h: "windowMs ?rl = 60000 \<and> 10 \<le> length (filter (\<lambda>t. 10 - t < 60000) (requests ?rl))"
    by simp
  have m: "Min (set [0, 1, 2, 3, 4, 5, 6, 7, 8, 9 :: int]) = 0" by simp
  from limiter_stands_alone [of ?rl 10] h
  have "\<not> fst (checkLimit 10 ?rl)
       \<and> fst (getRemainingRequests 10 ?rl) = 0
       \<and> getTimeUntilReset 10 (snd (checkLimit 10 ?rl))
           = Min (set (filter (\<lambda>t. 10 - t < 60000) (requests ?rl))) + 60000 - 10"
    by blast
  then show ?thesis by (simp only: live m) simp
qed

section \<open>Properties of the content script\<close>

text \<open>
  Claim C10 as stated fails. The completion handler compares the field's value at the
  moment of completion with the value the request was made for. A first request is
  made for the value \<^verbatim>\<open>a\<close>; the user types on, and a second request is made for
  \<^verbatim>\<open>ab\<close>; the user deletes the last character; the first request completes. The field
  reads \<^verbatim>\<open>a\<close> again, and the first request's suggestion is displayed.
\<close>

theorem returning_value_shows_first_result:
  "sent (run_script [Edit ''a'', TimerFires, Edit ''ab'', TimerFires, Edit ''a'']) = [''a'', ''ab'']
   \<and> shown (run_script [Edit ''a'', TimerFires, Edit ''ab'', TimerFires, Edit ''a'',
                        Completes ''a'' (Inr (Some apple_response))])
     = Showing \<lparr>s_text = ''apple pie recipe'', s_derivation = ''Session: baking''\<rparr>
         (Some (JStr ''ok'')) False"
  by code_simp

lemma run_script_snoc: "run_script (events @ [ev]) = script_step ev (run_script events)"
  by (simp add: run_script_def)

lemma on_completion_stale:
  assumes "field_value st \<noteq> v"
  shows "on_completion v (Inr answer) st = st"
  using assms by (simp add: on_completion_def)

lemma on_completion_current:
  assumes "field_value st = v" and "rs_success r" and "rs_suggestions r = s # rest"
  shows "on_completion v (Inr (Some r)) st
       = st\<lparr>currentSuggestions := s # rest, activeSuggestionIndex := 0,
            shown := Showing s (rs_reason r) (rs_isFormFill r)\<rparr>"
  using assms by (simp add: on_completion_def)

text \<open>
  Claim C10, amended. When a request completes with an answer and the field's value at
  that moment differs from the value the request was made for, the answer is discarded
  whatever it holds: the script's state, the overlay included, stays as it is. When the
  field's value equals the request's value (also after the field has left that value and
  come back to it while other requests were made), a successful answer with suggestions
  is displayed.
\<close>

theorem stale_result_discarded:
  "(field_value st \<noteq> v \<longrightarrow> on_completion v (Inr answer) st = st)
   \<and> (field_value (run_script events) \<noteq> v \<longrightarrow>
        run_script (events @ [Completes v (Inr answer)]) = run_script events)
   \<and> (field_value st = v \<and> rs_success r \<and> rs_suggestions r = s # rest \<longrightarrow>
        shown (on_completion v (Inr (Some r)) st) = Showing s (rs_reason r) (rs_isFormFill r))"
proof (intro conjI impI)
  assume "field_value st \<noteq> v"
  then show "on_completion v (Inr answer) st = st"
    by (rule on_completion_stale)
next
  assume "field_value (run_script events) \<noteq> v"
  then have "on_completion v (Inr answer) (run_script events) = run_script events"
    by (rule on_completion_stale)
  then show "run_script (events @ [Completes v (Inr answer)]) = run_script events"
    by (simp add: run_script_snoc script_step_def)
next
  assume "field_value st = v \<and> rs_success r \<and> rs_suggestions r = s # rest"
  then show "shown (on_completion v (Inr (Some r)) st) = Showing s (rs_reason r) (rs_isFormFill r)"
    using on_completion_current [of st v r s rest] by simp
qed

theorem stale_result_discarded_witness:
  "field_value (run_script [Edit ''a'', TimerFires, Edit ''ab'', TimerFires]) = ''ab''
   \<and> run_script ([Edit ''a'', TimerFires, Edit ''ab'', TimerFires]
                  @ [Completes ''a'' (Inr (Some apple_response))])
     = run_script [Edit ''a'', TimerFires, Edit ''ab'', TimerFires]
   \<and> shown (run_script [Edit ''a'', TimerFires, Edit ''ab'', TimerFires]) = Loading"
proof -
  let ?es = "[Edit ''a'', TimerFires, Edit ''ab'', TimerFires]"
  have v: "field_value (run_script ?es) = ''ab''" by code_simp
  have l: "shown (run_script ?es) = Loading" by code_simp
  have "field_value (run_script ?es) \<noteq> ''a''" by (simp add: v)
  with stale_result_discarded [where events = ?es and v = "''a''" and answer = "Some apple_response"]
  have "run_script (?es @ [Completes ''a'' (Inr (Some apple_response))]) = run_script ?es"
    by blast
  with v l show ?thesis by blast
qed

end
